theory Spec2Isabelle
  imports Complex_Main "HOL-Library.Log_Nat" "HOL-Library.Multiset"
begin

section \<open>JavaScript numbers\<close>

text \<open>
  A JavaScript number is an IEEE 754 binary64 value.  The model keeps the exact rational
  value of a finite double and rounds after every operation (round to nearest, ties to
  even, 53 bits of precision, exponents from \<open>-1074\<close> to \<open>971\<close>, overflow to infinity).
  The two zeros are one value here: the program never divides by a variable and ends
  every computation whose sign of zero could show with \<open>|| 0\<close>, which maps both
  zeros to \<open>0\<close>.
\<close>

datatype jsnum = NaN | PInf | NInf | Fin rat

definition round_even :: "rat \<Rightarrow> int" where
  "round_even x = (let f = \<lfloor>x\<rfloor>; d = x - of_int f in
     if d < 1 / 2 then f else if 1 / 2 < d then f + 1 else if even f then f else f + 1)"

text \<open>The binary exponent of a positive rational: \<open>2 powi flog2 x \<le> x < 2 powi (flog2 x + 1)\<close>.\<close>

definition flog2 :: "rat \<Rightarrow> int" where
  "flog2 x = (case quotient_of x of (p, q) \<Rightarrow>
     let d = bitlen p - bitlen q in if 2 powi d \<le> x then d else d - 1)"

text \<open>Rounding a real value to the nearest double.\<close>

definition fl :: "rat \<Rightarrow> jsnum" where
  "fl x = (if x = 0 then Fin 0 else
     let e = max (flog2 \<bar>x\<bar> - 52) (- 1074);
         r = of_int (round_even (x / 2 powi e)) * 2 powi e
     in if 2 ^ 1024 \<le> r then PInf else if r \<le> - (2 ^ 1024) then NInf else Fin r)"

fun signum :: "jsnum \<Rightarrow> int" where
  "signum NaN = 0"
| "signum PInf = 1"
| "signum NInf = - 1"
| "signum (Fin a) = (if a = 0 then 0 else if 0 < a then 1 else - 1)"

definition fmul :: "jsnum \<Rightarrow> jsnum \<Rightarrow> jsnum" where
  "fmul a b = (case (a, b) of
       (Fin x, Fin y) \<Rightarrow> fl (x * y)
     | _ \<Rightarrow> if signum a * signum b = 0 then NaN
            else if 0 < signum a * signum b then PInf else NInf)"

definition fadd :: "jsnum \<Rightarrow> jsnum \<Rightarrow> jsnum" where
  "fadd a b = (case (a, b) of
       (Fin x, Fin y) \<Rightarrow> fl (x + y)
     | (NaN, _) \<Rightarrow> NaN
     | (_, NaN) \<Rightarrow> NaN
     | (PInf, NInf) \<Rightarrow> NaN
     | (NInf, PInf) \<Rightarrow> NaN
     | (Fin x, _) \<Rightarrow> b
     | _ \<Rightarrow> a)"

fun fneg :: "jsnum \<Rightarrow> jsnum" where
  "fneg NaN = NaN"
| "fneg PInf = NInf"
| "fneg NInf = PInf"
| "fneg (Fin a) = Fin (- a)"

definition fsub :: "jsnum \<Rightarrow> jsnum \<Rightarrow> jsnum" where
  "fsub a b = fadd a (fneg b)"

text \<open>
  Division.  A zero divisor is taken as \<open>+0\<close>; the program divides by the constant
  \<open>1000 * 60 * 60\<close> only.
\<close>

definition fdiv :: "jsnum \<Rightarrow> jsnum \<Rightarrow> jsnum" where
  "fdiv a b = (case (a, b) of
       (Fin x, Fin y) \<Rightarrow>
         if y = 0 then (if x = 0 then NaN else if 0 < x then PInf else NInf) else fl (x / y)
     | (NaN, _) \<Rightarrow> NaN
     | (_, NaN) \<Rightarrow> NaN
     | (Fin x, _) \<Rightarrow> Fin 0
     | (_, Fin y) \<Rightarrow> if 0 \<le> y then a else fneg a
     | _ \<Rightarrow> NaN)"

fun Math_floor :: "jsnum \<Rightarrow> jsnum" where
  "Math_floor (Fin a) = Fin (of_int \<lfloor>a\<rfloor>)"
| "Math_floor x = x"

text \<open>The comparison \<open>a > b\<close>: false when either side is \<open>NaN\<close>.\<close>

fun js_gt :: "jsnum \<Rightarrow> jsnum \<Rightarrow> bool" where
  "js_gt NaN _ = False"
| "js_gt _ NaN = False"
| "js_gt (Fin a) (Fin b) = (b < a)"
| "js_gt PInf b = (b \<noteq> PInf)"
| "js_gt a NInf = (a \<noteq> NInf)"
| "js_gt _ _ = False"

text \<open>
  A decimal literal of the source text denotes the nearest double: \<open>dec 416 4\<close> is the
  literal \<open>0.0416\<close>, the digits \<open>416\<close> with four of them after the point.
\<close>

definition dec :: "int \<Rightarrow> nat \<Rightarrow> jsnum" where
  "dec m d = fl (of_int m / 10 ^ d)"

text \<open>\<open>x || d\<close> on numbers: \<open>NaN\<close> and zero are falsy.\<close>

definition num_truthy :: "jsnum \<Rightarrow> bool" where
  "num_truthy x = (x \<noteq> NaN \<and> x \<noteq> Fin 0)"

definition num_or :: "jsnum \<Rightarrow> jsnum \<Rightarrow> jsnum" where
  "num_or x d = (if num_truthy x then x else d)"

subsection \<open>\<open>toFixed(2)\<close> and reading its text back\<close>

text \<open>
  \<open>Number.prototype.toFixed(2)\<close> returns a text.  For a finite \<open>x\<close> below \<open>10^21\<close> in
  magnitude it is the decimal with two fraction digits of the integer \<open>n\<close> for which
  \<open>n / 100\<close> is closest to \<open>\<bar>x\<bar>\<close> (the larger \<open>n\<close> on a tie), with a minus sign when
  \<open>x < 0\<close>: \<open>FixedDec\<close> holds the sign and \<open>n\<close>.  For every other number the text is
  the one \<open>ToString\<close> gives (\<open>NaN\<close>, \<open>Infinity\<close>, an exponent form), which
  \<open>Number\<close> reads back as the same number: \<open>FixedText\<close>.
\<close>

datatype fixed = FixedText jsnum | FixedDec bool nat

definition toFixed2 :: "jsnum \<Rightarrow> fixed" where
  "toFixed2 x = (case x of
       Fin q \<Rightarrow> if 10 ^ 21 \<le> \<bar>q\<bar> then FixedText x
                else FixedDec (q < 0) (nat \<lfloor>\<bar>q\<bar> * 100 + 1 / 2\<rfloor>)
     | _ \<Rightarrow> FixedText x)"

definition Number_of_fixed :: "fixed \<Rightarrow> jsnum" where
  "Number_of_fixed t = (case t of
       FixedText x \<Rightarrow> x
     | FixedDec neg n \<Rightarrow> fl ((if neg then - 1 else 1) * of_nat n / 100))"

section \<open>Values of type \<open>any\<close>\<close>

text \<open>
  \<open>systemDetails\<close> has type \<open>any\<close>: what \<open>JSON.parse\<close> returned, \<open>{}\<close> or
  \<open>{raw: details}\<close>.  \<open>Native\<close> stands for the functions and objects an object
  literal inherits from \<open>Object.prototype\<close>.
\<close>

datatype jsval =
    Undefined
  | Null
  | Bool bool
  | Num jsnum
  | Str string
  | Arr "jsval list"
  | Obj "(string \<times> jsval) list"
  | Native

datatype error = TypeError | SyntaxError

fun truthy :: "jsval \<Rightarrow> bool" where
  "truthy Undefined = False"
| "truthy Null = False"
| "truthy (Bool b) = b"
| "truthy (Num x) = num_truthy x"
| "truthy (Str s) = (s \<noteq> [])"
| "truthy _ = True"

definition js_or :: "jsval \<Rightarrow> jsval \<Rightarrow> jsval" where
  "js_or a b = (if truthy a then a else b)"

text \<open>\<open>ToNumber\<close> of a rate found in the table: a native function or object gives \<open>NaN\<close>.\<close>

fun ToNumber_rate :: "jsval \<Rightarrow> jsnum" where
  "ToNumber_rate (Num x) = x"
| "ToNumber_rate _ = NaN"

section \<open>Strings to numbers\<close>

text \<open>
  \<open>Number(s)\<close> on a string: the text is trimmed of white space and line terminators
  (strings are sequences of UTF-8 bytes here), the empty text is \<open>0\<close>, a decimal
  literal (sign, digits, fraction, exponent, \<open>Infinity\<close>) or an unsigned binary, octal or
  hexadecimal integer literal is rounded to the nearest double, and every other text is
  \<open>NaN\<close>.  A literal of more than twenty significant digits is rounded correctly as
  well, as V8 does.
\<close>

definition is_digit :: "char \<Rightarrow> bool" where
  "is_digit c = (48 \<le> (of_char c :: nat) \<and> (of_char c :: nat) \<le> 57)"

definition digit_val :: "char \<Rightarrow> nat" where
  "digit_val c = of_char c - 48"

definition digits_val :: "string \<Rightarrow> nat" where
  "digits_val ds = foldl (\<lambda>n c. 10 * n + digit_val c) 0 ds"

definition white_space :: "string list" where
  "white_space =
    [[CHR 0x09], [CHR 0x0A], [CHR 0x0B], [CHR 0x0C], [CHR 0x0D], [CHR 0x20],
     [CHR 0xC2, CHR 0xA0], [CHR 0xE1, CHR 0x9A, CHR 0x80],
     [CHR 0xE2, CHR 0x80, CHR 0x80], [CHR 0xE2, CHR 0x80, CHR 0x81],
     [CHR 0xE2, CHR 0x80, CHR 0x82], [CHR 0xE2, CHR 0x80, CHR 0x83],
     [CHR 0xE2, CHR 0x80, CHR 0x84], [CHR 0xE2, CHR 0x80, CHR 0x85],
     [CHR 0xE2, CHR 0x80, CHR 0x86], [CHR 0xE2, CHR 0x80, CHR 0x87],
     [CHR 0xE2, CHR 0x80, CHR 0x88], [CHR 0xE2, CHR 0x80, CHR 0x89],
     [CHR 0xE2, CHR 0x80, CHR 0x8A], [CHR 0xE2, CHR 0x80, CHR 0xA8],
     [CHR 0xE2, CHR 0x80, CHR 0xA9], [CHR 0xE2, CHR 0x80, CHR 0xAF],
     [CHR 0xE2, CHR 0x81, CHR 0x9F], [CHR 0xE3, CHR 0x80, CHR 0x80],
     [CHR 0xEF, CHR 0xBB, CHR 0xBF]]"

fun skip_tokens :: "string list \<Rightarrow> string \<Rightarrow> string" where
  "skip_tokens ws [] = []"
| "skip_tokens ws (c # cs) =
     (if [c] \<in> set ws then skip_tokens ws cs
      else if c # take 1 cs \<in> set ws then skip_tokens ws (drop 1 cs)
      else if c # take 2 cs \<in> set ws then skip_tokens ws (drop 2 cs)
      else c # cs)"

definition trim :: "string \<Rightarrow> string" where
  "trim s = rev (skip_tokens (map rev white_space) (rev (skip_tokens white_space s)))"

definition exponent_part :: "string \<Rightarrow> int option" where
  "exponent_part s = (case s of
       [] \<Rightarrow> Some 0
     | c # t \<Rightarrow>
         if c = CHR ''e'' \<or> c = CHR ''E'' then
           (case t of
              [] \<Rightarrow> None
            | d # u \<Rightarrow>
                if d = CHR ''-'' then (if u \<noteq> [] \<and> list_all is_digit u then Some (- int (digits_val u)) else None)
                else if d = CHR ''+'' then (if u \<noteq> [] \<and> list_all is_digit u then Some (int (digits_val u)) else None)
                else if list_all is_digit t then Some (int (digits_val t)) else None)
         else None)"

definition unsigned_decimal :: "string \<Rightarrow> rat option" where
  "unsigned_decimal s =
    (let ip = takeWhile is_digit s;
         r1 = dropWhile is_digit s;
         dot = (r1 \<noteq> [] \<and> hd r1 = CHR ''.'');
         fp = (if dot then takeWhile is_digit (tl r1) else []);
         r2 = (if dot then dropWhile is_digit (tl r1) else r1)
     in if ip = [] \<and> fp = [] then None
        else case exponent_part r2 of
          None \<Rightarrow> None
        | Some ex \<Rightarrow>
            Some ((of_nat (digits_val ip) + of_nat (digits_val fp) / 10 ^ length fp) * 10 powi ex))"

definition str_decimal :: "string \<Rightarrow> jsnum" where
  "str_decimal s =
    (let neg = (s \<noteq> [] \<and> hd s = CHR ''-'');
         u = (if s \<noteq> [] \<and> (hd s = CHR ''-'' \<or> hd s = CHR ''+'') then tl s else s)
     in if u = ''Infinity'' then (if neg then NInf else PInf)
        else case unsigned_decimal u of
          None \<Rightarrow> NaN
        | Some v \<Rightarrow> fl (if neg then - v else v))"

definition radix_digit :: "char \<Rightarrow> nat option" where
  "radix_digit c =
    (let n = (of_char c :: nat) in
     if 48 \<le> n \<and> n \<le> 57 then Some (n - 48)
     else if 97 \<le> n \<and> n \<le> 102 then Some (n - 87)
     else if 65 \<le> n \<and> n \<le> 70 then Some (n - 55)
     else None)"

definition radix_val :: "nat \<Rightarrow> string \<Rightarrow> nat option" where
  "radix_val b ds =
    (if ds \<noteq> [] \<and> list_all (\<lambda>c. case radix_digit c of None \<Rightarrow> False | Some d \<Rightarrow> d < b) ds
     then Some (foldl (\<lambda>n c. b * n + (case radix_digit c of None \<Rightarrow> 0 | Some d \<Rightarrow> d)) 0 ds)
     else None)"

definition non_decimal :: "string \<Rightarrow> nat option" where
  "non_decimal s =
    (if take 2 s = ''0x'' \<or> take 2 s = ''0X'' then radix_val 16 (drop 2 s)
     else if take 2 s = ''0o'' \<or> take 2 s = ''0O'' then radix_val 8 (drop 2 s)
     else if take 2 s = ''0b'' \<or> take 2 s = ''0B'' then radix_val 2 (drop 2 s)
     else None)"

definition Number_of_string :: "string \<Rightarrow> jsnum" where
  "Number_of_string s =
    (let t = trim s in
     if t = [] then Fin 0
     else case non_decimal t of
       Some n \<Rightarrow> fl (of_nat n)
     | None \<Rightarrow> str_decimal t)"



section \<open>Dates\<close>

text \<open>
  A \<open>Date\<close> object is its time value: a whole number of milliseconds since the epoch,
  at most \<open>8.64e15\<close> in magnitude, or \<open>NaN\<close> for an invalid date.
\<close>

definition trunc :: "rat \<Rightarrow> int" where
  "trunc q = (if 0 \<le> q then \<lfloor>q\<rfloor> else \<lceil>q\<rceil>)"

definition TimeClip :: "jsnum \<Rightarrow> jsnum" where
  "TimeClip t = (case t of
       Fin q \<Rightarrow> if 8640000000000000 < \<bar>q\<bar> then NaN else Fin (of_int (trunc q))
     | _ \<Rightarrow> NaN)"

definition new_Date :: "jsnum \<Rightarrow> jsnum" where
  "new_Date v = TimeClip v"

text \<open>\<open>new Date()\<close> when the clock reads \<open>now\<close> milliseconds.\<close>

definition Date_now :: "int \<Rightarrow> jsnum" where
  "Date_now now = Fin (of_int now)"

definition getTime :: "jsnum \<Rightarrow> jsnum" where
  "getTime d = d"

section \<open>JSON.parse\<close>

text \<open>
  \<open>JSON.parse\<close> in two passes over the text, each a left-to-right scan: the first
  cuts the text into tokens (punctuation, string literals with their escapes decoded,
  numbers and the three literal names), the second builds the value with a stack of
  the arrays and objects still open.  A text that is not JSON gives \<open>SyntaxError\<close>.
  A repeated key of an object keeps its first position and takes the last value.
  The entries of an object are kept in the order of the text.  JavaScript enumerates
  the keys that are array indices first, in ascending order, and the other keys in the
  order of the text after them; the two orders differ for an object with such a key.
  Every definition below reads an object by key, with \<open>map_of\<close>, and none enumerates
  its entries, so the results do not depend on the order.
\<close>

datatype token = TLBrace | TRBrace | TLBrack | TRBrack | TColon | TComma | TValue jsval

definition json_number :: "string \<Rightarrow> jsnum option" where
  "json_number w =
    (let neg = (w \<noteq> [] \<and> hd w = CHR ''-'');
         u = (if neg then tl w else w);
         ip = takeWhile is_digit u;
         r1 = dropWhile is_digit u;
         dot = (r1 \<noteq> [] \<and> hd r1 = CHR ''.'');
         fp = (if dot then takeWhile is_digit (tl r1) else []);
         r2 = (if dot then dropWhile is_digit (tl r1) else r1)
     in if ip = [] \<or> (hd ip = CHR ''0'' \<and> tl ip \<noteq> []) \<or> (dot \<and> fp = []) then None
        else case exponent_part r2 of
          None \<Rightarrow> None
        | Some ex \<Rightarrow>
            let v = (of_nat (digits_val ip) + of_nat (digits_val fp) / 10 ^ length fp) * 10 powi ex
            in Some (fl (if neg then - v else v)))"

definition json_word :: "string \<Rightarrow> jsval option" where
  "json_word w =
    (if w = ''true'' then Some (Bool True)
     else if w = ''false'' then Some (Bool False)
     else if w = ''null'' then Some Null
     else map_option Num (json_number w))"

definition utf8 :: "nat \<Rightarrow> string" where
  "utf8 n =
    (if n < 0x80 then [char_of n]
     else if n < 0x800 then [char_of (0xC0 + n div 64), char_of (0x80 + n mod 64)]
     else if n < 0x10000 then
       [char_of (0xE0 + n div 4096), char_of (0x80 + n div 64 mod 64), char_of (0x80 + n mod 64)]
     else
       [char_of (0xF0 + n div 262144), char_of (0x80 + n div 4096 mod 64),
        char_of (0x80 + n div 64 mod 64), char_of (0x80 + n mod 64)])"

datatype lexstate =
    LStart
  | LWord string
  | LStr string "nat option"
  | LEsc string "nat option"
  | LUni string "nat option" "nat list"

definition flush :: "nat option \<Rightarrow> string \<Rightarrow> string" where
  "flush pend acc = (case pend of None \<Rightarrow> acc | Some h \<Rightarrow> rev (utf8 h) @ acc)"

definition code_unit :: "string \<Rightarrow> nat option \<Rightarrow> nat \<Rightarrow> lexstate" where
  "code_unit acc pend u =
    (case pend of
       Some h \<Rightarrow>
         if 0xDC00 \<le> u \<and> u \<le> 0xDFFF
         then LStr (rev (utf8 (0x10000 + (h - 0xD800) * 0x400 + (u - 0xDC00))) @ acc) None
         else if 0xD800 \<le> u \<and> u \<le> 0xDBFF then LStr (flush pend acc) (Some u)
         else LStr (rev (utf8 u) @ flush pend acc) None
     | None \<Rightarrow>
         if 0xD800 \<le> u \<and> u \<le> 0xDBFF then LStr acc (Some u)
         else LStr (rev (utf8 u) @ acc) None)"

definition json_delimiter :: "char \<Rightarrow> bool" where
  "json_delimiter c = (c \<in> set ''{}[]:,\"'' \<or> c \<in> {CHR 0x09, CHR 0x0A, CHR 0x0D, CHR 0x20})"

definition lex_start :: "token list \<Rightarrow> char \<Rightarrow> (lexstate \<times> token list) option" where
  "lex_start out c =
    (if c \<in> {CHR 0x09, CHR 0x0A, CHR 0x0D, CHR 0x20} then Some (LStart, out)
     else if c = CHR ''{'' then Some (LStart, out @ [TLBrace])
     else if c = CHR ''}'' then Some (LStart, out @ [TRBrace])
     else if c = CHR ''['' then Some (LStart, out @ [TLBrack])
     else if c = CHR '']'' then Some (LStart, out @ [TRBrack])
     else if c = CHR '':'' then Some (LStart, out @ [TColon])
     else if c = CHR '','' then Some (LStart, out @ [TComma])
     else if c = CHR 0x22 then Some (LStr [] None, out)
     else Some (LWord [c], out))"

definition lex_step :: "lexstate \<Rightarrow> token list \<Rightarrow> char \<Rightarrow> (lexstate \<times> token list) option" where
  "lex_step st out c =
    (case st of
       LStart \<Rightarrow> lex_start out c
     | LWord w \<Rightarrow>
         if json_delimiter c then
           (case json_word (rev w) of
              None \<Rightarrow> None
            | Some v \<Rightarrow> lex_start (out @ [TValue v]) c)
         else Some (LWord (c # w), out)
     | LStr acc pend \<Rightarrow>
         if c = CHR 0x22 then Some (LStart, out @ [TValue (Str (rev (flush pend acc)))])
         else if c = CHR 0x5C then Some (LEsc acc pend, out)
         else if (of_char c :: nat) < 0x20 then None
         else Some (LStr (c # flush pend acc) None, out)
     | LEsc acc pend \<Rightarrow>
         if c = CHR 0x22 \<or> c = CHR 0x5C \<or> c = CHR ''/'' then Some (LStr (c # flush pend acc) None, out)
         else if c = CHR ''b'' then Some (LStr (CHR 0x08 # flush pend acc) None, out)
         else if c = CHR ''f'' then Some (LStr (CHR 0x0C # flush pend acc) None, out)
         else if c = CHR ''n'' then Some (LStr (CHR 0x0A # flush pend acc) None, out)
         else if c = CHR ''r'' then Some (LStr (CHR 0x0D # flush pend acc) None, out)
         else if c = CHR ''t'' then Some (LStr (CHR 0x09 # flush pend acc) None, out)
         else if c = CHR ''u'' then Some (LUni acc pend [], out)
         else None
     | LUni acc pend ds \<Rightarrow>
         (case radix_digit c of
            None \<Rightarrow> None
          | Some d \<Rightarrow>
              if length ds = 3 then Some (code_unit acc pend (foldl (\<lambda>n x. 16 * n + x) 0 (ds @ [d])), out)
              else Some (LUni acc pend (ds @ [d]), out)))"

fun lex :: "lexstate \<Rightarrow> token list \<Rightarrow> string \<Rightarrow> token list option" where
  "lex st out [] =
    (case st of
       LStart \<Rightarrow> Some out
     | LWord w \<Rightarrow> (case json_word (rev w) of None \<Rightarrow> None | Some v \<Rightarrow> Some (out @ [TValue v]))
     | _ \<Rightarrow> None)"
| "lex st out (c # cs) =
    (case lex_step st out c of
       None \<Rightarrow> None
     | Some (st', out') \<Rightarrow> lex st' out' cs)"

datatype frame = FArr "jsval list" | FObj "(string \<times> jsval) list" "string option"

datatype mode =
    ExpectValue
  | ExpectValueOrClose
  | ExpectKeyOrClose
  | ExpectKey
  | ExpectColon
  | ExpectCommaOrClose
  | Done jsval

fun put :: "string \<Rightarrow> jsval \<Rightarrow> (string \<times> jsval) list \<Rightarrow> (string \<times> jsval) list" where
  "put k v [] = [(k, v)]"
| "put k v ((k', v') # kvs) = (if k = k' then (k, v) # kvs else (k', v') # put k v kvs)"

definition deliver :: "jsval \<Rightarrow> frame list \<Rightarrow> (mode \<times> frame list) option" where
  "deliver v stack =
    (case stack of
       [] \<Rightarrow> Some (Done v, [])
     | FArr es # rest \<Rightarrow> Some (ExpectCommaOrClose, FArr (es @ [v]) # rest)
     | FObj kvs None # rest \<Rightarrow> None
     | FObj kvs (Some k) # rest \<Rightarrow> Some (ExpectCommaOrClose, FObj (put k v kvs) None # rest))"

definition open_value :: "frame list \<Rightarrow> token \<Rightarrow> (mode \<times> frame list) option" where
  "open_value stack t =
    (case t of
       TValue v \<Rightarrow> deliver v stack
     | TLBrack \<Rightarrow> Some (ExpectValueOrClose, FArr [] # stack)
     | TLBrace \<Rightarrow> Some (ExpectKeyOrClose, FObj [] None # stack)
     | _ \<Rightarrow> None)"

definition take_key :: "frame list \<Rightarrow> token \<Rightarrow> (mode \<times> frame list) option" where
  "take_key stack t =
    (case (t, stack) of
       (TValue (Str k), FObj kvs None # rest) \<Rightarrow> Some (ExpectColon, FObj kvs (Some k) # rest)
     | _ \<Rightarrow> None)"

definition close_frame :: "frame list \<Rightarrow> token \<Rightarrow> (mode \<times> frame list) option" where
  "close_frame stack t =
    (case (t, stack) of
       (TRBrack, FArr es # rest) \<Rightarrow> deliver (Arr es) rest
     | (TRBrace, FObj kvs None # rest) \<Rightarrow> deliver (Obj kvs) rest
     | _ \<Rightarrow> None)"

definition parse_step :: "mode \<Rightarrow> frame list \<Rightarrow> token \<Rightarrow> (mode \<times> frame list) option" where
  "parse_step m stack t =
    (case m of
       ExpectValue \<Rightarrow> open_value stack t
     | ExpectValueOrClose \<Rightarrow> (if t = TRBrack then close_frame stack t else open_value stack t)
     | ExpectKeyOrClose \<Rightarrow> (if t = TRBrace then close_frame stack t else take_key stack t)
     | ExpectKey \<Rightarrow> take_key stack t
     | ExpectColon \<Rightarrow> (if t = TColon then Some (ExpectValue, stack) else None)
     | ExpectCommaOrClose \<Rightarrow>
         (if t = TComma then
            (case stack of
               FArr es # rest \<Rightarrow> Some (ExpectValue, stack)
             | FObj kvs None # rest \<Rightarrow> Some (ExpectKey, stack)
             | _ \<Rightarrow> None)
          else close_frame stack t)
     | Done v \<Rightarrow> None)"

fun parse_tokens :: "mode \<Rightarrow> frame list \<Rightarrow> token list \<Rightarrow> jsval option" where
  "parse_tokens m stack [] = (case (m, stack) of (Done v, []) \<Rightarrow> Some v | _ \<Rightarrow> None)"
| "parse_tokens m stack (t # ts) =
    (case parse_step m stack t of
       None \<Rightarrow> None
     | Some (m', stack') \<Rightarrow> parse_tokens m' stack' ts)"

definition JSON_parse :: "string \<Rightarrow> error + jsval" where
  "JSON_parse text =
    (case lex LStart [] text of
       None \<Rightarrow> Inl SyntaxError
     | Some ts \<Rightarrow>
         (case parse_tokens ExpectValue [] ts of
            None \<Rightarrow> Inl SyntaxError
          | Some v \<Rightarrow> Inr v))"


section \<open>The data model\<close>

record Timestamp =
  seconds :: "string option"

record Configuration =
  region :: "string option"

record Spec =
  configuration :: "Configuration option"

record Status =
  system_details :: "string option"
  phase :: "string option"
  region :: "string option"

record Runner =
  runner_id :: "string option"
  name :: "string option"
  kind :: "string option"
  created_at :: "Timestamp option"
  spec :: "Spec option"
  status :: "Status option"

record EnvStatus =
  phase :: "string option"

record Environment =
  environment_id :: "string option"
  context_url :: "string option"
  runner_id :: "string option"
  status :: "EnvStatus option"

record RunnerMetrics =
  runnerId :: string
  name :: string
  kind :: string
  region :: string
  uptime :: jsnum
  phase :: string
  systemDetails :: jsval
  environments :: "Environment list"
  estimatedCost :: "jsnum option"

section \<open>Cost estimation\<close>

text \<open>\<open>metrics.systemDetails?.instanceType\<close>: only an object can have the property.\<close>

fun instanceType_of :: "jsval \<Rightarrow> jsval" where
  "instanceType_of (Obj kvs) = (case map_of kvs ''instanceType'' of Some v \<Rightarrow> v | None \<Rightarrow> Undefined)"
| "instanceType_of _ = Undefined"

definition hourlyRates :: "(string \<times> jsnum) list" where
  "hourlyRates =
    [(''t3.medium'', dec 416 4),
     (''t3.large'', dec 832 4),
     (''t3.xlarge'', dec 1664 4),
     (''default'', dec 416 4)]"

text \<open>The names an object literal inherits from \<open>Object.prototype\<close>.\<close>

definition Object_prototype_names :: "string list" where
  "Object_prototype_names =
    [''constructor'', ''__proto__'', ''hasOwnProperty'', ''isPrototypeOf'',
     ''propertyIsEnumerable'', ''toString'', ''toLocaleString'', ''valueOf'',
     ''__defineGetter__'', ''__defineSetter__'', ''__lookupGetter__'', ''__lookupSetter__'']"

text \<open>\<open>hourlyRates[key]\<close> for a string key: an own entry, an inherited one, or \<open>undefined\<close>.\<close>

definition hourlyRates_get :: "string \<Rightarrow> jsval" where
  "hourlyRates_get key = (case map_of hourlyRates key of
       Some r \<Rightarrow> Num r
     | None \<Rightarrow> if key \<in> set Object_prototype_names then Native else Undefined)"

text \<open>
  \<open>hourlyRates[v]\<close> converts \<open>v\<close> to a property key first.  The conversion of an object
  calls its \<open>toString\<close>; an object that \<open>JSON.parse\<close> built with an own \<open>toString\<close>
  entry has no callable one, and the conversion throws a \<open>TypeError\<close>.  An array is
  converted by joining the conversions of its elements.
\<close>

fun convertible :: "jsval \<Rightarrow> bool" where
  "convertible (Obj kvs) = (map_of kvs ''toString'' = None)"
| "convertible (Arr vs) = list_all convertible vs"
| "convertible _ = True"

text \<open>
  The key of a string is the string.  The key of a one-element array is the key of its
  element.  Every other key is a text that names no entry: the digits of a number,
  \<open>true\<close>, \<open>[object Object]\<close>, the empty text of an empty array or of \<open>[null]\<close>, or a
  text with a comma.
\<close>

fun hourlyRates_lookup :: "jsval \<Rightarrow> jsval" where
  "hourlyRates_lookup (Str s) = hourlyRates_get s"
| "hourlyRates_lookup (Arr [v]) = hourlyRates_lookup v"
| "hourlyRates_lookup _ = Undefined"

definition hourlyRates_at :: "jsval \<Rightarrow> error + jsval" where
  "hourlyRates_at v = (if convertible v then Inr (hourlyRates_lookup v) else Inl TypeError)"

definition estimateCost :: "RunnerMetrics \<Rightarrow> error + jsnum" where
  "estimateCost metrics =
    (if RunnerMetrics.kind metrics = ''RUNNER_KIND_LOCAL'' then Inr (Fin 0)
     else
       let instanceType = js_or (instanceType_of (systemDetails metrics)) (Str ''default'') in
       case hourlyRates_at instanceType of
         Inl e \<Rightarrow> Inl e
       | Inr found \<Rightarrow>
           let hourlyRate = js_or found (hourlyRates_get ''default'');
               cost = fmul (uptime metrics) (ToNumber_rate hourlyRate);
               environmentCost =
                 fmul (fmul (Fin (of_nat (length (environments metrics)))) (dec 1 1))
                   (uptime metrics)
           in Inr (num_or (Number_of_fixed (toFixed2 (fadd cost environmentCost))) (Fin 0)))"

subsection \<open>The metered path in the words of the specification\<close>

text \<open>
  The specification describes the path of a remote runner as a rate table of three named
  tiers and a default, a base cost \<open>uptimeHours * hourlyRate\<close>, an environment surcharge
  \<open>attachedEnvironmentCount * perEnvironmentHourlyRate * uptimeHours\<close>, and a total that is
  their sum rounded to two decimal places, with a result that is not a number replaced by
  zero.  The definitions below follow these words, with the figures of the source for the
  rates; they are compared with \<open>estimateCost\<close>, which follows the source.
\<close>

definition spec_tier_rate :: "string \<Rightarrow> jsnum" where
  "spec_tier_rate t =
    (if t = ''t3.medium'' then dec 416 4
     else if t = ''t3.large'' then dec 832 4
     else if t = ''t3.xlarge'' then dec 1664 4
     else dec 416 4)"

definition spec_base_cost :: "jsnum \<Rightarrow> jsnum \<Rightarrow> jsnum" where
  "spec_base_cost uptimeHours hourlyRate = fmul uptimeHours hourlyRate"

definition spec_environment_surcharge :: "nat \<Rightarrow> jsnum \<Rightarrow> jsnum" where
  "spec_environment_surcharge attached uptimeHours = fmul (fmul (Fin (of_nat attached)) (dec 1 1)) uptimeHours"

definition spec_metered_cost :: "jsnum \<Rightarrow> jsnum \<Rightarrow> nat \<Rightarrow> jsnum" where
  "spec_metered_cost hourlyRate uptimeHours attached =
    num_or (Number_of_fixed (toFixed2
      (fadd (spec_base_cost uptimeHours hourlyRate) (spec_environment_surcharge attached uptimeHours))))
      (Fin 0)"

section \<open>Metrics derivation\<close>

text \<open>\<open>x || d\<close> on a string that may be absent: absent and empty are falsy.\<close>

definition or_else :: "string option \<Rightarrow> string \<Rightarrow> string" where
  "or_else x d = (case x of None \<Rightarrow> d | Some s \<Rightarrow> if s = [] then d else s)"

text \<open>
  \<open>calculateUptime\<close> reads the clock with \<open>new Date()\<close>; the reading, in
  milliseconds since the epoch, is the argument \<open>now\<close>.
\<close>

definition calculateUptime :: "int \<Rightarrow> Timestamp option \<Rightarrow> jsnum" where
  "calculateUptime now createdAt =
    (case createdAt of
       None \<Rightarrow> Fin 0
     | Some c \<Rightarrow>
         (case seconds c of
            None \<Rightarrow> Fin 0
          | Some s \<Rightarrow>
              if s = [] then Fin 0
              else
                let created = new_Date (fmul (Number_of_string s) (Fin 1000));
                    now_date = Date_now now
                in Math_floor
                     (fdiv (fsub (getTime now_date) (getTime created))
                        (fmul (fmul (Fin 1000) (Fin 60)) (Fin 60)))))"

definition parseSystemDetails :: "string option \<Rightarrow> jsval" where
  "parseSystemDetails details =
    (case details of
       None \<Rightarrow> Obj []
     | Some d \<Rightarrow>
         if d = [] then Obj []
         else (case JSON_parse d of
                 Inr v \<Rightarrow> v
               | Inl e \<Rightarrow> Obj [(''raw'', Str d)]))"

definition status_region :: "Runner \<Rightarrow> string option" where
  "status_region runner =
    (case Runner.status runner of None \<Rightarrow> None | Some st \<Rightarrow> Status.region st)"

definition spec_region :: "Runner \<Rightarrow> string option" where
  "spec_region runner =
    (case spec runner of
       None \<Rightarrow> None
     | Some sp \<Rightarrow> (case configuration sp of None \<Rightarrow> None | Some cf \<Rightarrow> Configuration.region cf))"

text \<open>A string field is present when it is there and not empty, that is, truthy.\<close>

definition present :: "string option \<Rightarrow> bool" where
  "present x = (case x of None \<Rightarrow> False | Some s \<Rightarrow> s \<noteq> [])"

definition getRegion :: "Runner \<Rightarrow> string" where
  "getRegion runner = or_else (status_region runner) (or_else (spec_region runner) ''unknown'')"

text \<open>
  \<open>analyzeRunner\<close> fails when \<open>estimateCost\<close> throws; otherwise it returns the
  metrics record with the estimate attached.
\<close>

definition analyzeRunner :: "int \<Rightarrow> Runner \<Rightarrow> Environment list \<Rightarrow> error + RunnerMetrics" where
  "analyzeRunner now runner envs =
    (let uptime = calculateUptime now (created_at runner);
         systemDetails =
           parseSystemDetails
             (case Runner.status runner of None \<Rightarrow> None | Some st \<Rightarrow> system_details st);
         runnerEnvironments =
           filter (\<lambda>env. Environment.runner_id env = Runner.runner_id runner) envs;
         metrics =
           \<lparr>runnerId = or_else (Runner.runner_id runner) ''unknown'',
            name = or_else (Runner.name runner) ''Unnamed Runner'',
            kind = or_else (Runner.kind runner) ''unknown'',
            region = getRegion runner,
            uptime = num_or uptime (Fin 0),
            phase =
              or_else (case Runner.status runner of None \<Rightarrow> None | Some st \<Rightarrow> Status.phase st)
                ''unknown'',
            systemDetails = systemDetails,
            environments = runnerEnvironments,
            estimatedCost = None\<rparr>
     in case estimateCost metrics of
          Inl e \<Rightarrow> Inl e
        | Inr c \<Rightarrow> Inr (metrics\<lparr>estimatedCost := Some c\<rparr>))"

text \<open>
  \<open>Promise.all(runners.map(r => this.analyzeRunner(r, environments)))\<close>: the records in
  the order of the runners, or the first failure.  The call for the runner at index \<open>i\<close>
  reads the clock as \<open>clock i\<close>.
\<close>

fun collect :: "(error + 'a) list \<Rightarrow> error + 'a list" where
  "collect [] = Inr []"
| "collect (Inl e # rs) = Inl e"
| "collect (Inr x # rs) = (case collect rs of Inl e \<Rightarrow> Inl e | Inr xs \<Rightarrow> Inr (x # xs))"

definition analyzeAll :: "(nat \<Rightarrow> int) \<Rightarrow> Runner list \<Rightarrow> Environment list \<Rightarrow> error + RunnerMetrics list" where
  "analyzeAll clock runners envs =
    collect (map (\<lambda>(i, r). analyzeRunner (clock i) r envs) (enumerate 0 runners))"

section \<open>The report\<close>

text \<open>
  The model of \<open>generateMarkdownReport\<close> keeps what the template interpolates in the
  Summary section and the text appended under the Recommendations heading; the other
  sections only print fields of the records.
\<close>

definition cost_or_zero :: "jsnum option \<Rightarrow> jsnum" where
  "cost_or_zero c = (case c of None \<Rightarrow> Fin 0 | Some x \<Rightarrow> num_or x (Fin 0))"

text \<open>The decimal digits of an array length.\<close>

function show_nat :: "nat \<Rightarrow> string" where
  "show_nat n = (if n < 10 then [char_of (48 + n)] else show_nat (n div 10) @ [char_of (48 + n mod 10)])"
  by pat_completeness auto
termination
  by (relation "measure id") auto

declare show_nat.simps [simp del]

text \<open>The two markers of the bullets, as the bytes of the source file.\<close>

definition marker_red :: string where
  "marker_red = [CHR 0xC3, CHR 0xB0, CHR 0xC5, CHR 0xB8, CHR 0xE2, CHR 0x80, CHR 0x9D, CHR 0xC2, CHR 0xB4]"

definition marker_yellow :: string where
  "marker_yellow = [CHR 0xC3, CHR 0xB0, CHR 0xC5, CHR 0xB8, CHR 0xC5, CHR 0xB8, CHR 0xC2, CHR 0xA1]"

definition inactive_line :: "nat \<Rightarrow> string" where
  "inactive_line n = ''- '' @ marker_red @ '' Clean up '' @ show_nat n @ '' inactive runners'' @ [CHR 0x0A]"

definition uptime_line :: "nat \<Rightarrow> string" where
  "uptime_line n =
    ''- '' @ marker_yellow @ '' Review '' @ show_nat n @ '' runners with high uptime (>1 week)'' @ [CHR 0x0A]"

definition empty_line :: "nat \<Rightarrow> string" where
  "empty_line n =
    ''- '' @ marker_yellow @ '' Consider removing '' @ show_nat n
      @ '' runners with no environments (>24h uptime)'' @ [CHR 0x0A]"

definition cost_line :: "nat \<Rightarrow> string" where
  "cost_line n =
    ''- '' @ marker_red @ '' Investigate '' @ show_nat n @ '' high-cost runners (>$100)'' @ [CHR 0x0A]"

record Report =
  totalRunners :: nat
  remoteCount :: nat
  localCount :: nat
  totalEnvironments :: jsnum
  totalCost :: jsnum
  totalCostText :: fixed
  recommendations :: "string list"

definition generateMarkdownReport :: "RunnerMetrics list \<Rightarrow> Report" where
  "generateMarkdownReport metrics =
    (let totalCost = foldl (\<lambda>sum m. fadd sum (cost_or_zero (estimatedCost m))) (Fin 0) metrics;
         remoteCount = length (filter (\<lambda>m. RunnerMetrics.kind m = ''RUNNER_KIND_REMOTE'') metrics);
         localCount = length (filter (\<lambda>m. RunnerMetrics.kind m = ''RUNNER_KIND_LOCAL'') metrics);
         totalEnvironments =
           foldl (\<lambda>sum m. fadd sum (Fin (of_nat (length (environments m))))) (Fin 0) metrics;
         inactiveRunners = filter (\<lambda>m. RunnerMetrics.phase m = ''RUNNER_PHASE_INACTIVE'') metrics;
         highUptimeRunners = filter (\<lambda>m. js_gt (uptime m) (Fin 168)) metrics;
         emptyRunners =
           filter (\<lambda>m. length (environments m) = 0 \<and> js_gt (uptime m) (Fin 24)) metrics;
         highCostRunners = filter (\<lambda>m. js_gt (cost_or_zero (estimatedCost m)) (Fin 100)) metrics
     in \<lparr>totalRunners = length metrics,
         remoteCount = remoteCount,
         localCount = localCount,
         totalEnvironments = totalEnvironments,
         totalCost = totalCost,
         totalCostText = toFixed2 totalCost,
         recommendations =
           (if length inactiveRunners > 0 then [inactive_line (length inactiveRunners)] else [])
           @ (if length highUptimeRunners > 0 then [uptime_line (length highUptimeRunners)] else [])
           @ (if length emptyRunners > 0 then [empty_line (length emptyRunners)] else [])
           @ (if length highCostRunners > 0 then [cost_line (length highCostRunners)] else [])\<rparr>)"

section \<open>Example data\<close>

text \<open>
  Two runners and three environments as the two list operations could return them, the
  clock reading of the run, a runner whose creation time lies five hours after that
  reading, and the metrics records that derivation builds from them before the estimate
  is attached.
\<close>

definition clock0 :: int where
  "clock0 = 1700036000000"

definition env_a1 :: Environment where
  "env_a1 = \<lparr>environment_id = Some ''env-1'', context_url = Some ''https://example.com/a'',
     Environment.runner_id = Some ''runner-a'', Environment.status = Some \<lparr>EnvStatus.phase = Some ''ENVIRONMENT_PHASE_RUNNING''\<rparr>\<rparr>"

definition env_a2 :: Environment where
  "env_a2 = \<lparr>environment_id = Some ''env-2'', context_url = None,
     Environment.runner_id = Some ''runner-a'', Environment.status = None\<rparr>"

definition env_orphan :: Environment where
  "env_orphan = \<lparr>environment_id = Some ''env-3'', context_url = None,
     Environment.runner_id = Some ''runner-gone'', Environment.status = None\<rparr>"

definition remote_runner :: Runner where
  "remote_runner =
    \<lparr>Runner.runner_id = Some ''runner-a'', Runner.name = Some ''build-a'',
     Runner.kind = Some ''RUNNER_KIND_REMOTE'',
     created_at = Some \<lparr>seconds = Some ''1700000000''\<rparr>,
     spec = Some \<lparr>configuration = Some \<lparr>Configuration.region = Some ''eu-west''\<rparr>\<rparr>,
     Runner.status =
       Some \<lparr>system_details = Some ''{\"instanceType\":\"t3.large\"}'',
             Status.phase = Some ''RUNNER_PHASE_ACTIVE'', Status.region = Some ''us-east''\<rparr>\<rparr>"

definition local_runner :: Runner where
  "local_runner =
    \<lparr>Runner.runner_id = Some ''runner-b'', Runner.name = Some ''laptop'',
     Runner.kind = Some ''RUNNER_KIND_LOCAL'',
     created_at = Some \<lparr>seconds = Some ''1700018000''\<rparr>,
     spec = None, Runner.status = None\<rparr>"

definition skewed_runner :: Runner where
  "skewed_runner =
    \<lparr>Runner.runner_id = Some ''runner-c'', Runner.name = Some ''build-c'',
     Runner.kind = Some ''RUNNER_KIND_REMOTE'',
     created_at = Some \<lparr>seconds = Some ''1700054000''\<rparr>,
     spec = None, Runner.status = None\<rparr>"

definition example_envs :: "Environment list" where
  "example_envs = [env_a1, env_orphan, env_a2]"

definition remote_metrics :: RunnerMetrics where
  "remote_metrics =
    \<lparr>runnerId = ''runner-a'', name = ''build-a'', kind = ''RUNNER_KIND_REMOTE'',
     region = ''us-east'', uptime = Fin 10, phase = ''RUNNER_PHASE_ACTIVE'',
     systemDetails = Obj [(''instanceType'', Str ''t3.large'')],
     environments = [env_a1, env_a2], estimatedCost = None\<rparr>"

definition local_metrics :: RunnerMetrics where
  "local_metrics =
    \<lparr>runnerId = ''runner-b'', name = ''laptop'', kind = ''RUNNER_KIND_LOCAL'',
     region = ''unknown'', uptime = Fin 5, phase = ''unknown'',
     systemDetails = Obj [], environments = [], estimatedCost = None\<rparr>"

definition skewed_metrics :: RunnerMetrics where
  "skewed_metrics =
    \<lparr>runnerId = ''runner-c'', name = ''build-c'', kind = ''RUNNER_KIND_REMOTE'',
     region = ''unknown'', uptime = Fin (- 5), phase = ''unknown'',
     systemDetails = Obj [], environments = [], estimatedCost = None\<rparr>"

section \<open>Rounding to the nearest double\<close>

lemma round_even_cases:
  "round_even x = \<lfloor>x\<rfloor> \<and> x - of_int \<lfloor>x\<rfloor> \<le> 1 / 2 \<or> round_even x = \<lfloor>x\<rfloor> + 1 \<and> 1 / 2 \<le> x - of_int \<lfloor>x\<rfloor>"
  by (simp add: round_even_def Let_def)

lemma round_even_nonneg: "0 \<le> x \<Longrightarrow> 0 \<le> round_even x"
  using round_even_cases [of x] by (auto simp: zero_le_floor)

lemma round_even_le_double:
  assumes "0 \<le> x"
  shows "of_int (round_even x) \<le> 2 * x"
proof -
  have f: "of_int \<lfloor>x\<rfloor> \<le> x" by simp
  have "0 \<le> \<lfloor>x\<rfloor>" using assms by simp
  then have f0: "(0::rat) \<le> of_int \<lfloor>x\<rfloor>" by simp
  from round_even_cases [of x] show ?thesis
  proof
    assume "round_even x = \<lfloor>x\<rfloor> \<and> x - of_int \<lfloor>x\<rfloor> \<le> 1 / 2"
    then show ?thesis using f assms by linarith
  next
    assume a: "round_even x = \<lfloor>x\<rfloor> + 1 \<and> 1 / 2 \<le> x - of_int \<lfloor>x\<rfloor>"
    then have "of_int (round_even x) = of_int \<lfloor>x\<rfloor> + (1::rat)" by simp
    then show ?thesis using a f0 by linarith
  qed
qed

lemma fl_nonneg:
  assumes "0 \<le> x" "2 * x < 2 ^ 1024"
  shows "\<exists>r. fl x = Fin r \<and> 0 \<le> r \<and> r \<le> 2 * x"
proof (cases "x = 0")
  case True
  then show ?thesis by (simp add: fl_def)
next
  case False
  define e where "e = max (flog2 \<bar>x\<bar> - 52) (- 1074)"
  define r :: rat where "r = of_int (round_even (x / 2 powi e)) * 2 powi e"
  have p: "(0::rat) < 2 powi e" by simp
  have "0 \<le> x / 2 powi e" using assms(1) p by simp
  then have a: "0 \<le> round_even (x / 2 powi e)" and b: "of_int (round_even (x / 2 powi e)) \<le> 2 * (x / 2 powi e)"
    by (rule round_even_nonneg, rule round_even_le_double)
  have r0: "0 \<le> r" using a p by (simp add: r_def)
  have "r \<le> 2 * (x / 2 powi e) * 2 powi e" unfolding r_def using b p
    by (intro mult_right_mono) auto
  then have r2: "r \<le> 2 * x" using p by simp
  have n1: "\<not> 2 ^ 1024 \<le> r" using r2 assms(2) by linarith
  have big: "(0::rat) < 2 ^ 1024" by simp
  have n2: "\<not> r \<le> - (2 ^ 1024)" using r0 big by linarith
  have "fl x = (if 2 ^ 1024 \<le> r then PInf else if r \<le> - (2 ^ 1024) then NInf else Fin r)"
    using False unfolding fl_def Let_def e_def r_def by simp
  then have "fl x = Fin r" using n1 n2 by (simp only: if_False)
  then show ?thesis using r0 r2 by blast
qed

lemma quotient_of_pos:
  assumes "0 < x" "quotient_of x = (p, q)"
  shows "0 < p" "0 < q" "x = of_int p / of_int q"
proof -
  show q: "0 < q" using assms(2) by (rule quotient_of_denom_pos)
  show x: "x = of_int p / of_int q" using assms(2) by (rule quotient_of_div)
  show "0 < p" using assms(1) q x by (simp add: zero_less_divide_iff)
qed

lemma bitlen_pos: "0 < p \<Longrightarrow> 1 \<le> bitlen p"
  using bitlen_eq_zero_iff [of p] bitlen_nonneg [of p] by linarith

lemma pow_bitlen_lower:
  assumes "0 < p"
  shows "(2::rat) powi (bitlen p - 1) \<le> of_int p"
proof -
  have "(2::int) ^ nat (bitlen p - 1) \<le> p" using bitlen_bounds [OF assms] by simp
  then have "(of_int ((2::int) ^ nat (bitlen p - 1)) :: rat) \<le> of_int p"
    by (simp only: of_int_le_iff)
  moreover have "(2::rat) powi (bitlen p - 1) = 2 ^ nat (bitlen p - 1)"
    using bitlen_pos [OF assms] by (simp add: power_int_def)
  ultimately show ?thesis by simp
qed

lemma pow_bitlen_upper:
  assumes "0 < p"
  shows "of_int p < (2::rat) powi (bitlen p)"
proof -
  have "p < (2::int) ^ nat (bitlen p)" using bitlen_bounds [OF assms] by simp
  then have "(of_int p :: rat) < of_int ((2::int) ^ nat (bitlen p))"
    by (simp only: of_int_less_iff)
  moreover have "(2::rat) powi (bitlen p) = 2 ^ nat (bitlen p)"
    using bitlen_nonneg [of p] by (simp add: power_int_def)
  ultimately show ?thesis by simp
qed

lemma flog2_bounds:
  assumes "0 < x"
  shows "2 powi (flog2 x) \<le> x \<and> x < 2 powi (flog2 x + 1)"
proof -
  obtain p q where pq: "quotient_of x = (p, q)" by (cases "quotient_of x")
  note P = quotient_of_pos [OF assms pq]
  define d where "d = bitlen p - bitlen q"
  have qp: "(0::rat) < of_int q" using P(2) by simp
  have lo: "(2::rat) powi (d - 1) \<le> x"
  proof -
    have "(2::rat) powi (d - 1) = 2 powi (bitlen p - 1) / 2 powi (bitlen q)"
      by (simp add: d_def power_int_diff)
    also have "\<dots> \<le> of_int p / 2 powi (bitlen q)"
      using pow_bitlen_lower [OF P(1)] by (simp add: divide_right_mono)
    also have "\<dots> \<le> of_int p / of_int q"
      using pow_bitlen_upper [OF P(2)] P(1) qp by (intro divide_left_mono) auto
    finally show ?thesis using P(3) by simp
  qed
  have hi: "x < (2::rat) powi (d + 1)"
  proof -
    have "x = of_int p / of_int q" by (rule P(3))
    also have "\<dots> < 2 powi (bitlen p) / of_int q"
      using pow_bitlen_upper [OF P(1)] qp by (simp add: divide_strict_right_mono)
    also have "\<dots> \<le> 2 powi (bitlen p) / 2 powi (bitlen q - 1)"
      using pow_bitlen_lower [OF P(2)] qp by (intro divide_left_mono mult_pos_pos) auto
    also have "\<dots> = 2 powi (d + 1)"
      by (simp add: d_def power_int_diff power_int_add)
    finally show ?thesis .
  qed
  have f: "flog2 x = (if 2 powi d \<le> x then d else d - 1)"
    by (simp add: flog2_def pq d_def Let_def)
  show ?thesis using lo hi by (auto simp: f)
qed

lemma pow2_less_cancel:
  assumes "(2::rat) powi a < 2 powi b"
  shows "a < b"
proof (rule ccontr)
  assume "\<not> a < b"
  then have "b \<le> a" by simp
  then have "(2::rat) powi b \<le> 2 powi a" by (intro power_int_increasing) auto
  with assms show False by simp
qed

lemma flog2_unique:
  assumes "0 < x" "2 powi k \<le> x" "x < 2 powi (k + 1)"
  shows "flog2 x = k"
proof -
  from flog2_bounds [OF assms(1)] have b: "2 powi (flog2 x) \<le> x" "x < 2 powi (flog2 x + 1)" by auto
  have "(2::rat) powi k < 2 powi (flog2 x + 1)" using assms(2) b(2) by linarith
  then have 1: "k < flog2 x + 1" by (rule pow2_less_cancel)
  have "(2::rat) powi (flog2 x) < 2 powi (k + 1)" using assms(3) b(1) by linarith
  then have 2: "flog2 x < k + 1" by (rule pow2_less_cancel)
  from 1 2 show ?thesis by simp
qed

lemma round_even_err: "\<bar>of_int (round_even y) - y\<bar> \<le> 1 / 2"
proof -
  have f: "of_int \<lfloor>y\<rfloor> \<le> y" "y < of_int \<lfloor>y\<rfloor> + 1" by linarith+
  from round_even_cases [of y] show ?thesis
  proof
    assume a: "round_even y = \<lfloor>y\<rfloor> \<and> y - of_int \<lfloor>y\<rfloor> \<le> 1 / 2"
    then have "of_int (round_even y) = (of_int \<lfloor>y\<rfloor> :: rat)" by simp
    then show ?thesis using a f by linarith
  next
    assume a: "round_even y = \<lfloor>y\<rfloor> + 1 \<and> 1 / 2 \<le> y - of_int \<lfloor>y\<rfloor>"
    then have "of_int (round_even y) = of_int \<lfloor>y\<rfloor> + (1::rat)" by simp
    then show ?thesis using a f by linarith
  qed
qed

lemma round_even_of_int: "round_even (of_int n) = n"
  by (simp add: round_even_def)

lemma fl_unfold:
  assumes "x \<noteq> 0"
  shows "fl x = (let e = max (flog2 \<bar>x\<bar> - 52) (- 1074);
         r = of_int (round_even (x / 2 powi e)) * 2 powi e
     in if 2 ^ 1024 \<le> r then PInf else if r \<le> - (2 ^ 1024) then NInf else Fin r)"
  using assms by (simp add: fl_def)

lemma fl_error:
  assumes "x \<noteq> 0" "\<bar>x\<bar> < 2 ^ 1023"
  shows "\<exists>r. fl x = Fin r \<and> \<bar>r - x\<bar> \<le> max (\<bar>x\<bar> / 2 ^ 53) (1 / 2 ^ 1075)"
proof -
  define e where "e = max (flog2 \<bar>x\<bar> - 52) (- 1074)"
  define r :: rat where "r = of_int (round_even (x / 2 powi e)) * 2 powi e"
  have p: "(0::rat) < 2 powi e" by simp
  have ax: "0 < \<bar>x\<bar>" using assms(1) by simp
  have "\<bar>r - x\<bar> = \<bar>of_int (round_even (x / 2 powi e)) - x / 2 powi e\<bar> * 2 powi e"
  proof -
    have "r - x = (of_int (round_even (x / 2 powi e)) - x / 2 powi e) * 2 powi e"
      using p by (simp add: r_def left_diff_distrib)
    then show ?thesis using p by (simp add: abs_mult)
  qed
  also have "\<dots> \<le> 1 / 2 * 2 powi e"
    using round_even_err [of "x / 2 powi e"] p by (intro mult_right_mono) auto
  finally have err: "\<bar>r - x\<bar> \<le> 2 powi e / 2" by simp
  have pe: "2 powi e / 2 \<le> max (\<bar>x\<bar> / 2 ^ 53) (1 / 2 ^ 1075)"
  proof (cases "- 1074 \<le> flog2 \<bar>x\<bar> - 52")
    case True
    then have "e = flog2 \<bar>x\<bar> - 52" by (simp add: e_def)
    then have "(2::rat) powi e = 2 powi (flog2 \<bar>x\<bar>) / 2 ^ 52" by (simp add: power_int_diff)
    also have "\<dots> \<le> \<bar>x\<bar> / 2 ^ 52" using flog2_bounds [OF ax] by (simp add: divide_right_mono)
    finally have "2 powi e / 2 \<le> \<bar>x\<bar> / 2 ^ 53" by simp
    then show ?thesis by simp
  next
    case False
    then have "e = - 1074" by (simp add: e_def)
    then have "(2::rat) powi e / 2 = 1 / 2 ^ 1075" by (simp add: power_int_minus_divide)
    then show ?thesis by simp
  qed
  have small: "max (\<bar>x\<bar> / 2 ^ 53) (1 / 2 ^ 1075) < (2::rat) ^ 1023"
  proof -
    have "\<bar>x\<bar> / 2 ^ 53 \<le> \<bar>x\<bar>" by (simp add: divide_le_eq)
    then have "\<bar>x\<bar> / 2 ^ 53 < 2 ^ 1023" using assms(2) by linarith
    moreover have "(1::rat) / 2 ^ 1075 < 2 ^ 1023" by simp
    ultimately show ?thesis by simp
  qed
  have E: "\<bar>r - x\<bar> \<le> max (\<bar>x\<bar> / 2 ^ 53) (1 / 2 ^ 1075)" using err pe by linarith
  have "\<bar>r\<bar> < 2 ^ 1023 + 2 ^ 1023" using E small assms(2) by linarith
  then have "\<bar>r\<bar> < 2 ^ 1024" by simp
  then have n: "\<not> 2 ^ 1024 \<le> r" "\<not> r \<le> - (2 ^ 1024)" by linarith+
  have "fl x = (if 2 ^ 1024 \<le> r then PInf else if r \<le> - (2 ^ 1024) then NInf else Fin r)"
    unfolding fl_unfold [OF assms(1)] Let_def e_def r_def by simp
  then have "fl x = Fin r" using n by (simp only: if_False)
  then show ?thesis using E by blast
qed

lemma fl_exact:
  assumes "\<bar>m\<bar> < 2 ^ 53" "- 1074 \<le> e" "e \<le> 971"
  shows "fl (of_int m * 2 powi e) = Fin (of_int m * 2 powi e)"
proof (cases "m = 0")
  case True
  then show ?thesis by (simp add: fl_def)
next
  case False
  define x :: rat where "x = of_int m * 2 powi e"
  have x0: "x \<noteq> 0" using False by (simp add: x_def)
  then have ax: "0 < \<bar>x\<bar>" by simp
  define E where "E = max (flog2 \<bar>x\<bar> - 52) (- 1074)"
  have am: "\<bar>of_int m :: rat\<bar> < 2 ^ 53" using assms(1) by (metis of_int_abs of_int_less_numeral_power_cancel_iff)
  have "\<bar>x\<bar> = \<bar>of_int m\<bar> * 2 powi e" by (simp add: x_def abs_mult)
  also have "\<dots> < 2 ^ 53 * 2 powi e" using am by (intro mult_strict_right_mono) auto
  also have "\<dots> = 2 powi (e + 53)" by (simp add: power_int_add)
  finally have xlt: "\<bar>x\<bar> < 2 powi (e + 53)" .
  have "(2::rat) powi (flog2 \<bar>x\<bar>) < 2 powi (e + 53)" using flog2_bounds [OF ax] xlt by linarith
  then have "flog2 \<bar>x\<bar> < e + 53" by (rule pow2_less_cancel)
  then have Ee: "E \<le> e" using assms(2) by (simp add: E_def)
  have "x / 2 powi E = of_int m * 2 powi (e - E)" by (simp add: x_def power_int_diff)
  also have "\<dots> = of_int m * 2 ^ nat (e - E)" using Ee by (simp add: power_int_def)
  also have "\<dots> = of_int (m * 2 ^ nat (e - E))" by simp
  finally have "round_even (x / 2 powi E) = m * 2 ^ nat (e - E)" by (simp only: round_even_of_int)
  then have "of_int (round_even (x / 2 powi E)) * 2 powi E = (of_int m * 2 ^ nat (e - E)) * (2::rat) powi E" by simp
  also have "(2::rat) ^ nat (e - E) = 2 powi (e - E)" using Ee by (simp add: power_int_def)
  also have "of_int m * (2::rat) powi (e - E) * 2 powi E = x" by (simp add: x_def power_int_diff)
  finally have r: "of_int (round_even (x / 2 powi E)) * 2 powi E = x" .
  have "(2::rat) powi (e + 53) \<le> 2 powi 1024" using assms(3) by (intro power_int_increasing) auto
  then have "\<bar>x\<bar> < 2 ^ 1024" using xlt by simp
  then have n: "\<not> 2 ^ 1024 \<le> x" "\<not> x \<le> - (2 ^ 1024)" by linarith+
  have "fl x = (if 2 ^ 1024 \<le> x then PInf else if x \<le> - (2 ^ 1024) then NInf else Fin x)"
    unfolding fl_unfold [OF x0] Let_def E_def [symmetric] r by simp
  then have "fl x = Fin x" using n by (simp only: if_False)
  then show ?thesis by (simp add: x_def)
qed

lemma fl_int: "\<bar>n\<bar> < 2 ^ 53 \<Longrightarrow> fl (of_int n) = Fin (of_int n)"
  using fl_exact [of n 0] by simp

lemma fl_normal:
  assumes "2 powi k \<le> \<bar>x\<bar>" "\<bar>x\<bar> < 2 powi (k + 1)" "- 1022 \<le> k" "k \<le> 1022"
  shows "fl x = Fin (of_int (round_even (x / 2 powi (k - 52))) * 2 powi (k - 52))"
proof -
  have p: "(0::rat) < 2 powi k" by simp
  then have ax: "0 < \<bar>x\<bar>" using assms(1) by linarith
  then have x0: "x \<noteq> 0" by auto
  have k: "flog2 \<bar>x\<bar> = k" using ax assms(1,2) by (rule flog2_unique)
  have e: "max (flog2 \<bar>x\<bar> - 52) (- 1074) = k - 52" using assms(3) by (simp add: k)
  have "(2::rat) powi (k + 1) \<le> 2 powi 1023" using assms(4) by (intro power_int_increasing) auto
  then have "\<bar>x\<bar> < 2 ^ 1023" using assms(2) by simp
  from fl_error [OF x0 this] obtain r where "fl x = Fin r" by blast
  then show ?thesis unfolding fl_unfold [OF x0] Let_def e by (auto split: if_splits)
qed

lemma round_even_unique:
  assumes "\<bar>x - of_int n\<bar> < 1 / 2"
  shows "round_even x = n"
proof -
  have "\<bar>of_int (round_even x) - x\<bar> \<le> 1 / 2" by (rule round_even_err)
  then have "\<bar>(of_int (round_even x) :: rat) - of_int n\<bar> < 1" using assms by linarith
  then have "\<bar>(of_int (round_even x - n) :: rat)\<bar> < 1" by simp
  then have "\<bar>round_even x - n\<bar> < 1" by (metis of_int_abs of_int_less_1_iff)
  then show ?thesis by linarith
qed

lemma fl_cert:
  assumes "2 powi k \<le> \<bar>x\<bar>" "\<bar>x\<bar> < 2 powi (k + 1)" "- 1022 \<le> k" "k \<le> 1022"
    and "\<bar>x / 2 powi (k - 52) - of_int n\<bar> < 1 / 2"
  shows "fl x = Fin (of_int n * 2 powi (k - 52))"
  using fl_normal [OF assms(1-4)] round_even_unique [OF assms(5)] by simp

section \<open>The literals and the arithmetic of the examples\<close>

lemma dec_t3_medium: "dec 416 4 = Fin (1498797955988901 / 36028797018963968)"
  unfolding dec_def using fl_cert [of "-5" "of_int 416 / 10 ^ 4" 5995191823955604]
  by (simp add: power_int_minus_divide)

lemma dec_t3_large: "dec 832 4 = Fin (1498797955988901 / 18014398509481984)"
  unfolding dec_def using fl_cert [of "-4" "of_int 832 / 10 ^ 4" 5995191823955604]
  by (simp add: power_int_minus_divide)

lemma dec_t3_xlarge: "dec 1664 4 = Fin (1498797955988901 / 9007199254740992)"
  unfolding dec_def using fl_cert [of "-3" "of_int 1664 / 10 ^ 4" 5995191823955604]
  by (simp add: power_int_minus_divide)

lemma dec_tenth: "dec 1 1 = Fin (3602879701896397 / 36028797018963968)"
  unfolding dec_def using fl_cert [of "-4" "of_int 1 / 10 ^ 1" 7205759403792794]
  by (simp add: power_int_minus_divide)

lemma dec_2_83: "dec 283 2 = Fin (1593148368182313 / 562949953421312)"
  unfolding dec_def using fl_cert [of "1" "of_int 283 / 10 ^ 2" 6372593472729252]
  by (simp add: power_int_minus_divide)

lemma scenario_base: "fmul (Fin 10) (Fin (1498797955988901 / 18014398509481984)) = Fin (7493989779944505 / 9007199254740992)"
  unfolding fmul_def using fl_cert [of "-1" "10 * (1498797955988901 / 18014398509481984)" 7493989779944505]
  by (simp add: power_int_minus_divide)

lemma scenario_two_tenths: "fmul (Fin 2) (Fin (3602879701896397 / 36028797018963968)) = Fin (3602879701896397 / 18014398509481984)"
  unfolding fmul_def using fl_cert [of "-3" "2 * (3602879701896397 / 36028797018963968)" 7205759403792794]
  by (simp add: power_int_minus_divide)

lemma scenario_surcharge: "fmul (Fin (3602879701896397 / 18014398509481984)) (Fin 10) = Fin (2)"
  unfolding fmul_def using fl_cert [of "1" "3602879701896397 / 18014398509481984 * 10" 4503599627370496]
  by (simp add: power_int_minus_divide)

lemma scenario_sum: "fadd (Fin (7493989779944505 / 9007199254740992)) (Fin 2) = Fin (3188548536178311 / 1125899906842624)"
  unfolding fadd_def using fl_cert [of "1" "7493989779944505 / 9007199254740992 + 2" 6377097072356622]
  by (simp add: power_int_minus_divide)

lemma scenario_fixed: "toFixed2 (Fin (3188548536178311 / 1125899906842624)) = FixedDec False 283"
proof -
  have "\<lfloor>(3188548536178311 / 1125899906842624 :: rat) * 100 + 1 / 2\<rfloor> = 283"
    by (rule floor_unique) simp_all
  then show ?thesis by (simp add: toFixed2_def)
qed

lemma scenario_read_back: "Number_of_fixed (FixedDec False 283) = dec 283 2"
  by (simp add: Number_of_fixed_def dec_def)

lemma fmul_Fin: "fmul (Fin a) (Fin b) = fl (a * b)"
  by (simp add: fmul_def)

lemma fadd_Fin: "fadd (Fin a) (Fin b) = fl (a + b)"
  by (simp add: fadd_def)

lemma fsub_Fin: "fsub (Fin a) (Fin b) = fl (a - b)"
  by (simp add: fsub_def fadd_def)

lemma fl_bounded:
  assumes "0 \<le> x" "x \<le> B" "2 * B < 2 ^ 1024"
  shows "\<exists>r. fl x = Fin r \<and> 0 \<le> r \<and> r \<le> 2 * B"
proof -
  have "2 * x < 2 ^ 1024" using assms(2,3) by linarith
  from fl_nonneg [OF assms(1) this] obtain r where "fl x = Fin r" "0 \<le> r" "r \<le> 2 * x" by blast
  then show ?thesis using assms(2) by (intro exI [of _ r]) auto
qed

lemma hourlyRates_values:
  "map_of hourlyRates key = Some r \<Longrightarrow>
   r = dec 416 4 \<or> r = dec 832 4 \<or> r = dec 1664 4"
  by (auto simp: hourlyRates_def split: if_splits)

lemma hourlyRates_get_cases:
  "hourlyRates_get key \<in> {Undefined, Native, Num (dec 416 4), Num (dec 832 4), Num (dec 1664 4)}"
proof (cases "map_of hourlyRates key")
  case None
  then show ?thesis by (simp add: hourlyRates_get_def)
next
  case (Some r)
  then show ?thesis using hourlyRates_values [OF Some] by (auto simp: hourlyRates_get_def)
qed

lemma hourlyRates_lookup_cases:
  "hourlyRates_lookup v \<in> {Undefined, Native, Num (dec 416 4), Num (dec 832 4), Num (dec 1664 4)}"
proof (induction v rule: hourlyRates_lookup.induct)
  case (1 s)
  then show ?case using hourlyRates_get_cases [of s] by simp
qed simp_all

lemma hourlyRates_default: "hourlyRates_get ''default'' = Num (dec 416 4)"
  by (simp add: hourlyRates_get_def hourlyRates_def)

lemma rate_cases:
  "ToNumber_rate (js_or (hourlyRates_lookup v) (hourlyRates_get ''default''))
     \<in> {NaN, dec 416 4, dec 832 4, dec 1664 4}"
  using hourlyRates_lookup_cases [of v]
  by (auto simp: js_or_def hourlyRates_default)

lemma rate_bounds:
  assumes "rate \<in> {NaN, dec 416 4, dec 832 4, dec 1664 4}"
  shows "rate = NaN \<or> (\<exists>a. rate = Fin a \<and> 0 \<le> a \<and> a \<le> 1)"
proof -
  have a: "\<exists>a. dec 416 4 = Fin a \<and> 0 \<le> a \<and> a \<le> 1"
    unfolding dec_t3_medium by (rule exI [of _ "1498797955988901 / 36028797018963968"]) simp
  have b: "\<exists>a. dec 832 4 = Fin a \<and> 0 \<le> a \<and> a \<le> 1"
    unfolding dec_t3_large by (rule exI [of _ "1498797955988901 / 18014398509481984"]) simp
  have c: "\<exists>a. dec 1664 4 = Fin a \<and> 0 \<le> a \<and> a \<le> 1"
    unfolding dec_t3_xlarge by (rule exI [of _ "1498797955988901 / 9007199254740992"]) simp
  from assms a b c show ?thesis by blast
qed

lemma read_back_nonneg:
  assumes "0 \<le> s" "s \<le> 2 ^ 100"
  shows "\<exists>c. num_or (Number_of_fixed (toFixed2 (Fin s))) (Fin 0) = Fin c \<and> 0 \<le> c"
proof (cases "10 ^ 21 \<le> \<bar>s\<bar>")
  case True
  then have "Number_of_fixed (toFixed2 (Fin s)) = Fin s"
    by (simp add: toFixed2_def Number_of_fixed_def)
  then show ?thesis using assms(1) by (auto simp: num_or_def)
next
  case False
  define n where "n = nat \<lfloor>\<bar>s\<bar> * 100 + 1 / 2\<rfloor>"
  have t: "toFixed2 (Fin s) = FixedDec False n"
    using False assms(1) by (simp add: toFixed2_def n_def)
  have s21: "s < 10 ^ 21" using False assms(1) by simp
  have "(0::rat) \<le> \<bar>s\<bar> * 100 + 1 / 2" by simp
  then have "0 \<le> \<lfloor>\<bar>s\<bar> * 100 + 1 / 2\<rfloor>" by simp
  then have "(of_nat n :: rat) = of_int \<lfloor>\<bar>s\<bar> * 100 + 1 / 2\<rfloor>" by (simp add: n_def)
  also have "\<dots> \<le> \<bar>s\<bar> * 100 + 1 / 2" by (rule of_int_floor_le)
  finally have nb: "(of_nat n :: rat) \<le> s * 100 + 1 / 2" using assms(1) by simp
  have x0: "(0::rat) \<le> of_nat n / 100" by simp
  have xB: "(of_nat n :: rat) / 100 \<le> 10 ^ 21 + 1" using nb s21 by simp
  have "2 * ((10::rat) ^ 21 + 1) < 2 ^ 1024" by simp
  from fl_bounded [OF x0 xB this] obtain r where r: "fl (of_nat n / 100) = Fin r" "0 \<le> r" by blast
  have "Number_of_fixed (toFixed2 (Fin s)) = Fin r" by (simp add: t Number_of_fixed_def r)
  then show ?thesis using r(2) by (auto simp: num_or_def)
qed

lemma metered_nonneg:
  assumes u: "0 \<le> u" "u \<le> 2 ^ 53" and n: "n < 2 ^ 32"
    and rate: "rate = NaN \<or> (\<exists>a. rate = Fin a \<and> 0 \<le> a \<and> a \<le> 1)"
  shows "\<exists>c. num_or (Number_of_fixed (toFixed2
           (fadd (fmul (Fin u) rate) (fmul (fmul (Fin (of_nat n)) (dec 1 1)) (Fin u)))))
           (Fin 0) = Fin c \<and> 0 \<le> c"
proof -
  have nn: "(of_nat n :: rat) \<le> 2 ^ 32"
  proof -
    have "(of_nat n :: rat) \<le> of_nat (2 ^ 32)" using n by (simp only: of_nat_le_iff)
    then show ?thesis by simp
  qed
  have "(0::rat) \<le> of_nat n * (3602879701896397 / 36028797018963968)" by simp
  moreover have "(of_nat n :: rat) * (3602879701896397 / 36028797018963968) \<le> 2 ^ 32 * 1"
    using nn by (intro mult_mono) simp_all
  moreover have "2 * ((2::rat) ^ 32 * 1) < 2 ^ 1024" by simp
  ultimately obtain e1 where e1: "fl (of_nat n * (3602879701896397 / 36028797018963968)) = Fin e1" "0 \<le> e1" "e1 \<le> 2 * (2 ^ 32 * 1)"
    using fl_bounded by blast
  have "0 \<le> e1 * u" using e1(2) u(1) by simp
  moreover have "e1 * u \<le> 2 * (2 ^ 32 * 1) * 2 ^ 53" using e1(2,3) u by (intro mult_mono) simp_all
  moreover have "2 * (2 * ((2::rat) ^ 32 * 1) * 2 ^ 53) < 2 ^ 1024" by simp
  ultimately obtain e2 where e2: "fl (e1 * u) = Fin e2" "0 \<le> e2" "e2 \<le> 2 * (2 * (2 ^ 32 * 1) * 2 ^ 53)"
    using fl_bounded by blast
  have env: "fmul (fmul (Fin (of_nat n)) (dec 1 1)) (Fin u) = Fin e2"
    by (simp only: dec_tenth fmul_Fin e1(1) e2(1))
  from rate show ?thesis
  proof
    assume "rate = NaN"
    then have "fadd (fmul (Fin u) rate) (Fin e2) = NaN" by (simp add: fmul_def fadd_def)
    then have "fadd (fmul (Fin u) rate) (fmul (fmul (Fin (of_nat n)) (dec 1 1)) (Fin u)) = NaN"
      by (simp only: env)
    moreover have "num_or (Number_of_fixed (toFixed2 NaN)) (Fin 0) = Fin 0"
      by (simp add: toFixed2_def Number_of_fixed_def num_or_def num_truthy_def)
    ultimately show ?thesis by (simp only:) simp
  next
    assume "\<exists>a. rate = Fin a \<and> 0 \<le> a \<and> a \<le> 1"
    then obtain a where a: "rate = Fin a" "0 \<le> a" "a \<le> 1" by blast
    have "0 \<le> u * a" using a(2) u(1) by simp
    moreover have "u * a \<le> 2 ^ 53 * 1" using a u by (intro mult_mono) simp_all
    moreover have "2 * ((2::rat) ^ 53 * 1) < 2 ^ 1024" by simp
    ultimately obtain c where c: "fl (u * a) = Fin c" "0 \<le> c" "c \<le> 2 * (2 ^ 53 * 1)"
      using fl_bounded by blast
    have "0 \<le> c + e2" using c(2) e2(2) by simp
    moreover have "c + e2 \<le> 2 ^ 90" using c(3) e2(3) by simp
    moreover have "2 * (2::rat) ^ 90 < 2 ^ 1024" by simp
    ultimately obtain s where s: "fl (c + e2) = Fin s" "0 \<le> s" "s \<le> 2 * 2 ^ 90"
      using fl_bounded by blast
    have "s \<le> 2 ^ 100" using s(3) by simp
    moreover have "fadd (fmul (Fin u) rate) (fmul (fmul (Fin (of_nat n)) (dec 1 1)) (Fin u)) = Fin s"
      by (simp only: env a(1) fmul_Fin c(1) fadd_Fin s(1))
    ultimately show ?thesis using read_back_nonneg [OF s(2)] by (simp only:)
  qed
qed

lemma convertible_or_default:
  "convertible v \<Longrightarrow> convertible (js_or v (Str ''default''))"
  by (simp add: js_or_def)

lemmas number_defs =
  Number_of_string_def trim_def white_space_def non_decimal_def str_decimal_def
  unsigned_decimal_def exponent_part_def is_digit_def digits_val_def digit_val_def

lemma hour_ms: "fmul (fmul (Fin 1000) (Fin 60)) (Fin 60) = Fin 3600000"
proof -
  have "fl 60000 = Fin 60000" using fl_int [of 60000] by simp
  moreover have "fl 3600000 = Fin 3600000" using fl_int [of 3600000] by simp
  ultimately show ?thesis by (simp add: fmul_Fin)
qed

lemma abs_of_int_less_pow:
  "\<bar>a\<bar> < 2 ^ 53 \<Longrightarrow> \<bar>of_int a :: rat\<bar> < 2 ^ 53"
  by (metis of_int_abs of_int_less_numeral_power_cancel_iff)

lemma floor_fl_div_hour:
  assumes "\<bar>a\<bar> < 2 ^ 53"
  shows "\<exists>r. fl (of_int a / 3600000) = Fin r \<and> \<lfloor>r\<rfloor> = a div 3600000"
proof (cases "a mod 3600000 = 0")
  case True
  define k where "k = a div 3600000"
  have a: "a = 3600000 * k" using True mult_div_mod_eq [of 3600000 a] by (simp add: k_def)
  have "\<bar>k\<bar> \<le> \<bar>a\<bar>" by (simp add: a abs_mult)
  then have "\<bar>k\<bar> < 2 ^ 53" using assms by linarith
  then have "fl (of_int k) = Fin (of_int k)" by (rule fl_int)
  moreover have "(of_int a :: rat) / 3600000 = of_int k" by (simp add: a)
  ultimately show ?thesis by (simp add: k_def)
next
  case False
  define k where "k = a div 3600000"
  define m where "m = a mod 3600000"
  have m: "1 \<le> m" "m \<le> 3599999"
    using False pos_mod_bound [of 3600000 a] pos_mod_sign [of 3600000 a] by (auto simp: m_def)
  have a: "a = 3600000 * k + m" using mult_div_mod_eq [of 3600000 a] by (simp add: k_def m_def)
  define x :: rat where "x = of_int a / 3600000"
  have xk: "x = of_int k + of_int m / 3600000" by (simp add: x_def a add_divide_distrib)
  have a0: "a \<noteq> 0" using False by auto
  then have x0: "x \<noteq> 0" by (simp add: x_def)
  have aa: "\<bar>of_int a :: rat\<bar> < 2 ^ 53" using assms by (rule abs_of_int_less_pow)
  have ax: "\<bar>x\<bar> = \<bar>of_int a\<bar> / 3600000" by (simp add: x_def)
  have "\<bar>x\<bar> \<le> \<bar>of_int a\<bar>" unfolding ax by (simp add: divide_le_eq)
  then have "\<bar>x\<bar> < 2 ^ 53" using aa by linarith
  moreover have "(2::rat) ^ 53 < 2 ^ 1023" by simp
  ultimately have "\<bar>x\<bar> < 2 ^ 1023" by linarith
  from fl_error [OF x0 this] obtain r where
    r: "fl x = Fin r" "\<bar>r - x\<bar> \<le> max (\<bar>x\<bar> / 2 ^ 53) (1 / 2 ^ 1075)" by blast
  have "\<bar>x\<bar> / 2 ^ 53 = (\<bar>of_int a\<bar> / 2 ^ 53) / 3600000" by (simp add: ax)
  also have "\<dots> < 1 / 3600000" using aa by (simp add: divide_less_eq)
  finally have e1: "\<bar>x\<bar> / 2 ^ 53 < 1 / 3600000" .
  have e2: "(1::rat) / 2 ^ 1075 < 1 / 3600000" by simp
  have err: "\<bar>r - x\<bar> < 1 / 3600000" using r(2) e1 e2 by (simp add: max_def split: if_splits)
  have mlo: "(1::rat) / 3600000 \<le> of_int m / 3600000"
    using m(1) by (simp add: divide_right_mono)
  have mhi: "(of_int m :: rat) / 3600000 \<le> 3599999 / 3600000"
    using m(2) by (simp add: divide_right_mono)
  have lo: "of_int k \<le> r" using err xk mlo by linarith
  have hi: "r < of_int k + 1" using err xk mhi by linarith
  have "\<lfloor>r\<rfloor> = k" using lo hi by (rule floor_unique)
  then show ?thesis using r(1) by (simp add: x_def k_def)
qed

lemma TimeClip_int:
  "\<bar>t\<bar> \<le> 8640000000000000 \<Longrightarrow> TimeClip (Fin (of_int t)) = Fin (of_int t)"
proof -
  assume a: "\<bar>t\<bar> \<le> 8640000000000000"
  have "\<bar>of_int t :: rat\<bar> = of_int \<bar>t\<bar>" by simp
  also have "\<dots> \<le> of_int 8640000000000000" using a by (simp only: of_int_le_iff)
  finally have "\<not> 8640000000000000 < \<bar>of_int t :: rat\<bar>" by simp
  then show ?thesis by (simp add: TimeClip_def trunc_def)
qed

lemma uptime_formula:
  assumes s: "seconds c = Some s" "s \<noteq> []"
    and n: "Number_of_string s = Fin (of_int n)"
    and range: "\<bar>n * 1000\<bar> \<le> 8640000000000000"
    and diff: "\<bar>now - n * 1000\<bar> < 2 ^ 53"
  shows "calculateUptime now (Some c) = Fin (of_int ((now - n * 1000) div 3600000))"
proof -
  have "\<bar>n * 1000\<bar> < 2 ^ 53" using range by simp
  then have "fl (of_int (n * 1000)) = Fin (of_int (n * 1000))" by (rule fl_int)
  then have ms: "fmul (Number_of_string s) (Fin 1000) = Fin (of_int (n * 1000))"
    by (simp add: n fmul_Fin)
  have created: "getTime (new_Date (fmul (Number_of_string s) (Fin 1000))) = Fin (of_int (n * 1000))"
    unfolding ms getTime_def new_Date_def using range by (rule TimeClip_int)
  have "fl (of_int (now - n * 1000)) = Fin (of_int (now - n * 1000))" using diff by (rule fl_int)
  then have d: "fsub (getTime (Date_now now)) (Fin (of_int (n * 1000))) = Fin (of_int (now - n * 1000))"
    by (simp add: getTime_def Date_now_def fsub_Fin)
  from floor_fl_div_hour [OF diff] obtain r where
    r: "fl (of_int (now - n * 1000) / 3600000) = Fin r" "\<lfloor>r\<rfloor> = (now - n * 1000) div 3600000" by blast
  have "fdiv (Fin (of_int (now - n * 1000))) (Fin 3600000) = Fin r"
    using r(1) by (simp add: fdiv_def)
  then have "Math_floor (fdiv (fsub (getTime (Date_now now)) (getTime (new_Date (fmul (Number_of_string s) (Fin 1000)))))
      (fmul (fmul (Fin 1000) (Fin 60)) (Fin 60))) = Fin (of_int ((now - n * 1000) div 3600000))"
    by (simp only: created d hour_ms Math_floor.simps r(2))
  then show ?thesis using s by (simp add: calculateUptime_def Let_def)
qed

lemma number_1700000000: "Number_of_string ''1700000000'' = Fin (of_int 1700000000)"
  using fl_int [of 1700000000] by (simp add: number_defs)

lemma rate_t3_large: "hourlyRates_get ''t3.large'' = Num (dec 832 4)"
  by (simp add: hourlyRates_get_def hourlyRates_def)

lemma scenario_cost:
  assumes "RunnerMetrics.kind m \<noteq> ''RUNNER_KIND_LOCAL''"
    and "instanceType_of (systemDetails m) = Str ''t3.large''"
    and "uptime m = Fin 10"
    and "length (environments m) = 2"
  shows "estimateCost m = Inr (dec 283 2)"
proof -
  have it: "js_or (instanceType_of (systemDetails m)) (Str ''default'') = Str ''t3.large''"
    by (simp add: assms(2) js_or_def)
  have found: "hourlyRates_at (Str ''t3.large'') = Inr (Num (dec 832 4))"
    by (simp only: hourlyRates_at_def convertible.simps if_True hourlyRates_lookup.simps rate_t3_large)
  have "truthy (Num (dec 832 4))"
    unfolding dec_t3_large by (simp add: num_truthy_def)
  then have rate: "ToNumber_rate (js_or (Num (dec 832 4)) (hourlyRates_get ''default'')) = Fin (1498797955988901 / 18014398509481984)"
    by (simp only: js_or_def if_True ToNumber_rate.simps dec_t3_large)
  have two: "Fin (of_nat (length (environments m))) = Fin 2" by (simp add: assms(4))
  have total: "fadd (fmul (uptime m) (ToNumber_rate (js_or (Num (dec 832 4)) (hourlyRates_get ''default''))))
      (fmul (fmul (Fin (of_nat (length (environments m)))) (dec 1 1)) (uptime m))
      = Fin (3188548536178311 / 1125899906842624)"
    by (simp only: rate two assms(3) dec_tenth scenario_base scenario_two_tenths scenario_surcharge scenario_sum)
  have "num_truthy (dec 283 2)" unfolding dec_2_83 by (simp add: num_truthy_def)
  then have rb: "num_or (Number_of_fixed (toFixed2 (Fin (3188548536178311 / 1125899906842624)))) (Fin 0) = dec 283 2"
    by (simp only: scenario_fixed scenario_read_back num_or_def if_True)
  have "estimateCost m = (case hourlyRates_at (Str ''t3.large'') of
         Inl e \<Rightarrow> Inl e
       | Inr found \<Rightarrow>
           let hourlyRate = js_or found (hourlyRates_get ''default'');
               cost = fmul (uptime m) (ToNumber_rate hourlyRate);
               environmentCost =
                 fmul (fmul (Fin (of_nat (length (environments m)))) (dec 1 1))
                   (uptime m)
           in Inr (num_or (Number_of_fixed (toFixed2 (fadd cost environmentCost))) (Fin 0)))"
    unfolding estimateCost_def Let_def it using assms(1) by (simp only: if_False)
  also have "\<dots> = Inr (dec 283 2)"
    by (simp only: found sum.case Let_def total rb)
  finally show ?thesis .
qed

lemma cost_or_zero_2_83: "cost_or_zero (Some (dec 283 2)) = Fin (1593148368182313 / 562949953421312)"
  unfolding dec_2_83 by (simp add: cost_or_zero_def num_or_def num_truthy_def)

lemma total_2_83:
  "fadd (fadd (Fin 0) (Fin (1593148368182313 / 562949953421312))) (Fin 0) = Fin (1593148368182313 / 562949953421312)"
proof -
  have "fl (1593148368182313 / 562949953421312) = Fin (1593148368182313 / 562949953421312)"
    using fl_exact [of 1593148368182313 "- 49"] by (simp add: power_int_minus_divide)
  then show ?thesis by (simp add: fadd_Fin)
qed

lemma fixed_2_83: "toFixed2 (Fin (1593148368182313 / 562949953421312)) = FixedDec False 283"
proof -
  have "\<lfloor>(1593148368182313 / 562949953421312 :: rat) * 100 + 1 / 2\<rfloor> = 283"
    by (rule floor_unique) simp_all
  then show ?thesis by (simp add: toFixed2_def)
qed

lemma total_environments_2: "fadd (fadd (Fin 0) (Fin 2)) (Fin 0) = Fin 2"
  using fl_int [of 2] by (simp add: fadd_Fin)

section \<open>Attaching environments\<close>

lemma analyzeRunner_environments:
  "analyzeRunner now r envs = Inr m \<Longrightarrow>
   environments m = filter (\<lambda>env. Environment.runner_id env = Runner.runner_id r) envs"
  by (auto simp: analyzeRunner_def Let_def split: sum.splits)

lemma collect_Inr:
  "collect rs = Inr xs \<Longrightarrow> rs = map Inr xs"
proof (induction rs arbitrary: xs)
  case Nil
  then show ?case by simp
next
  case (Cons r rs)
  then show ?case by (cases r) (auto split: sum.splits)
qed

lemma analyzeAll_environments:
  assumes "analyzeAll clock runners envs = Inr ms"
  shows "map environments ms =
    map (\<lambda>r. filter (\<lambda>env. Environment.runner_id env = Runner.runner_id r) envs) runners"
proof -
  from assms have eq: "map (\<lambda>(i, r). analyzeRunner (clock i) r envs) (enumerate 0 runners) = map Inr ms"
    unfolding analyzeAll_def by (rule collect_Inr)
  then have len: "length ms = length runners"
    by (metis length_enumerate length_map)
  show ?thesis
  proof (rule nth_equalityI)
    show "length (map environments ms) =
      length (map (\<lambda>r. filter (\<lambda>env. Environment.runner_id env = Runner.runner_id r) envs) runners)"
      using len by simp
  next
    fix i assume "i < length (map environments ms)"
    then have i: "i < length runners" using len by simp
    have "map (\<lambda>(i, r). analyzeRunner (clock i) r envs) (enumerate 0 runners) ! i = map Inr ms ! i"
      using eq by simp
    then have "analyzeRunner (clock i) (runners ! i) envs = Inr (ms ! i)"
      using i len by (simp add: nth_enumerate_eq)
    then have "environments (ms ! i) =
      filter (\<lambda>env. Environment.runner_id env = Runner.runner_id (runners ! i)) envs"
      by (rule analyzeRunner_environments)
    then show "map environments ms ! i =
      map (\<lambda>r. filter (\<lambda>env. Environment.runner_id env = Runner.runner_id r) envs) runners ! i"
      using i len by simp
  qed
qed

lemma mset_concat_filter_distinct:
  assumes "distinct ks"
  shows "mset (concat (map (\<lambda>k. filter (\<lambda>e. f e = k) es) ks)) = mset (filter (\<lambda>e. f e \<in> set ks) es)"
  using assms
proof (induction ks)
  case Nil
  then show ?case by simp
next
  case (Cons k ks)
  have "mset (filter (\<lambda>e. f e \<in> set (k # ks)) es) =
        mset (filter (\<lambda>e. f e = k) es) + mset (filter (\<lambda>e. f e \<in> set ks) es)"
    using Cons.prems by (induction es) auto
  then show ?case using Cons by simp
qed

section \<open>Uptime and estimate of a derived record\<close>

lemma fl_abs_bounded:
  assumes "\<bar>x\<bar> \<le> B" "1 \<le> B" "B < 2 ^ 1022"
  shows "\<exists>r. fl x = Fin r \<and> \<bar>r\<bar> \<le> 2 * B"
proof (cases "x = 0")
  case True
  then show ?thesis using assms(2) by (simp add: fl_def)
next
  case False
  have "(2::rat) ^ 1022 < 2 ^ 1023" by simp
  then have "\<bar>x\<bar> < 2 ^ 1023" using assms(1,3) by linarith
  from fl_error [OF False this] obtain r where
    r: "fl x = Fin r" "\<bar>r - x\<bar> \<le> max (\<bar>x\<bar> / 2 ^ 53) (1 / 2 ^ 1075)" by blast
  have "\<bar>x\<bar> / 2 ^ 53 \<le> \<bar>x\<bar>" by (simp add: divide_le_eq)
  then have a: "\<bar>x\<bar> / 2 ^ 53 \<le> B" using assms(1) by linarith
  have "(1::rat) / 2 ^ 1075 \<le> 1" by simp
  then have b: "(1::rat) / 2 ^ 1075 \<le> B" using assms(2) by linarith
  have "\<bar>r - x\<bar> \<le> B" using r(2) a b by (simp add: max_def split: if_splits)
  then have "\<bar>r\<bar> \<le> 2 * B" using assms(1) by linarith
  then show ?thesis using r(1) by blast
qed

lemma trunc_abs: "\<bar>of_int (trunc q) :: rat\<bar> \<le> \<bar>q\<bar>"
proof (cases "0 \<le> q")
  case True
  then have "0 \<le> \<lfloor>q\<rfloor>" by simp
  then have "\<bar>of_int \<lfloor>q\<rfloor> :: rat\<bar> = of_int \<lfloor>q\<rfloor>" by simp
  also have "\<dots> \<le> q" by simp
  finally show ?thesis using True by (simp add: trunc_def)
next
  case False
  then have "\<lceil>q\<rceil> \<le> 0" by simp
  then have "\<bar>of_int \<lceil>q\<rceil> :: rat\<bar> = - of_int \<lceil>q\<rceil>" by simp
  also have "\<dots> \<le> - q" by simp
  finally show ?thesis using False by (simp add: trunc_def)
qed

lemma TimeClip_cases:
  "TimeClip v = NaN \<or> (\<exists>t. TimeClip v = Fin t \<and> \<bar>t\<bar> \<le> 8640000000000000)"
proof (cases v)
  case (Fin q)
  show ?thesis
  proof (cases "8640000000000000 < \<bar>q\<bar>")
    case True
    then show ?thesis by (simp add: TimeClip_def Fin)
  next
    case False
    then have "\<bar>of_int (trunc q) :: rat\<bar> \<le> 8640000000000000"
      using trunc_abs [of q] by linarith
    then show ?thesis using False by (simp add: TimeClip_def Fin)
  qed
qed (simp_all add: TimeClip_def)

lemma calculateUptime_range:
  assumes "\<bar>now\<bar> \<le> 8640000000000000"
  shows "calculateUptime now c = NaN \<or> (\<exists>u. calculateUptime now c = Fin u \<and> \<bar>u\<bar> \<le> 2 ^ 53)"
proof (cases c)
  case None
  then show ?thesis by (simp add: calculateUptime_def)
next
  case (Some ts)
  show ?thesis
  proof (cases "seconds ts")
    case None
    then show ?thesis by (simp add: calculateUptime_def Some)
  next
    case s: (Some s)
    show ?thesis
    proof (cases "s = []")
      case True
      then show ?thesis by (simp add: calculateUptime_def Some s)
    next
      case False
      define created where "created = new_Date (fmul (Number_of_string s) (Fin 1000))"
      have up: "calculateUptime now c = Math_floor (fdiv (fsub (Fin (of_int now)) created) (Fin 3600000))"
        using False
        by (simp add: calculateUptime_def Some s Let_def created_def hour_ms getTime_def Date_now_def)
      from TimeClip_cases [of "fmul (Number_of_string s) (Fin 1000)"]
      have "created = NaN \<or> (\<exists>t. created = Fin t \<and> \<bar>t\<bar> \<le> 8640000000000000)"
        by (simp add: created_def new_Date_def)
      then show ?thesis
      proof
        assume "created = NaN"
        then show ?thesis by (simp add: up fsub_def fadd_def fdiv_def)
      next
        assume "\<exists>t. created = Fin t \<and> \<bar>t\<bar> \<le> 8640000000000000"
        then obtain t where t: "created = Fin t" "\<bar>t\<bar> \<le> 8640000000000000" by blast
        have "\<bar>of_int now :: rat\<bar> = of_int \<bar>now\<bar>" by simp
        also have "\<dots> \<le> of_int 8640000000000000" using assms by (simp only: of_int_le_iff)
        finally have n: "\<bar>of_int now :: rat\<bar> \<le> 8640000000000000" by simp
        have "\<bar>of_int now - t\<bar> \<le> 17280000000000000" using n t(2) by linarith
        moreover have "(1::rat) \<le> 17280000000000000" by simp
        moreover have "(17280000000000000::rat) < 2 ^ 1022" by simp
        ultimately obtain d where d: "fl (of_int now - t) = Fin d" "\<bar>d\<bar> \<le> 2 * 17280000000000000"
          using fl_abs_bounded by blast
        have "\<bar>d / 3600000\<bar> = \<bar>d\<bar> / 3600000" by simp
        also have "\<dots> \<le> 2 * 17280000000000000 / 3600000" using d(2) by (simp add: divide_right_mono)
        also have "\<dots> \<le> 10 ^ 10" by simp
        finally have "\<bar>d / 3600000\<bar> \<le> 10 ^ 10" .
        moreover have "(1::rat) \<le> 10 ^ 10" by simp
        moreover have "(10::rat) ^ 10 < 2 ^ 1022" by simp
        ultimately obtain h where h: "fl (d / 3600000) = Fin h" "\<bar>h\<bar> \<le> 2 * 10 ^ 10"
          using fl_abs_bounded by blast
        have "of_int \<lfloor>h\<rfloor> \<le> h" "h < of_int \<lfloor>h\<rfloor> + 1" by linarith+
        then have "\<bar>of_int \<lfloor>h\<rfloor> :: rat\<bar> \<le> \<bar>h\<bar> + 1" by linarith
        then have "\<bar>of_int \<lfloor>h\<rfloor> :: rat\<bar> \<le> 2 ^ 53" using h(2) by simp
        moreover have "calculateUptime now c = Fin (of_int \<lfloor>h\<rfloor>)"
          by (simp add: up t(1) fsub_Fin d(1) fdiv_def h(1))
        ultimately show ?thesis by blast
      qed
    qed
  qed
qed

lemma analyzeRunner_uptime:
  assumes "analyzeRunner now r envs = Inr m"
  shows "uptime m = num_or (calculateUptime now (created_at r)) (Fin 0)"
  using assms by (auto simp: analyzeRunner_def Let_def split: sum.splits)

lemma analyzeRunner_uptime_range:
  assumes "analyzeRunner now r envs = Inr m" "\<bar>now\<bar> \<le> 8640000000000000"
  shows "\<exists>u. uptime m = Fin u \<and> \<bar>u\<bar> \<le> 2 ^ 53"
proof -
  from calculateUptime_range [OF assms(2), of "created_at r"]
  show ?thesis
  proof
    assume "calculateUptime now (created_at r) = NaN"
    then have "uptime m = Fin 0"
      by (simp add: analyzeRunner_uptime [OF assms(1)] num_or_def num_truthy_def)
    then show ?thesis by simp
  next
    assume "\<exists>u. calculateUptime now (created_at r) = Fin u \<and> \<bar>u\<bar> \<le> 2 ^ 53"
    then obtain u where u: "calculateUptime now (created_at r) = Fin u" "\<bar>u\<bar> \<le> 2 ^ 53" by blast
    have "uptime m = Fin u \<or> uptime m = Fin 0"
      by (simp add: analyzeRunner_uptime [OF assms(1)] u(1) num_or_def)
    then show ?thesis using u(2) by auto
  qed
qed

lemma estimateCost_Inr_nonneg:
  assumes "uptime m = Fin u" "0 \<le> u" "u \<le> 2 ^ 53"
    and "length (environments m) < 2 ^ 32"
    and "estimateCost m = Inr c"
  shows "\<exists>c'. c = Fin c' \<and> 0 \<le> c'"
proof (cases "RunnerMetrics.kind m = ''RUNNER_KIND_LOCAL''")
  case True
  then have "c = Fin 0" using assms(5) by (simp add: estimateCost_def)
  then show ?thesis by simp
next
  case False
  define it where "it = js_or (instanceType_of (systemDetails m)) (Str ''default'')"
  define rate where "rate = ToNumber_rate (js_or (hourlyRates_lookup it) (hourlyRates_get ''default''))"
  have cv: "convertible it"
  proof (rule ccontr)
    assume "\<not> convertible it"
    then have "estimateCost m = Inl TypeError"
      using False by (simp add: estimateCost_def hourlyRates_at_def Let_def it_def [symmetric])
    then show False using assms(5) by simp
  qed
  have rb: "rate = NaN \<or> (\<exists>a. rate = Fin a \<and> 0 \<le> a \<and> a \<le> 1)"
    unfolding rate_def by (rule rate_bounds) (rule rate_cases)
  have "estimateCost m = Inr (num_or (Number_of_fixed (toFixed2
         (fadd (fmul (Fin u) rate)
            (fmul (fmul (Fin (of_nat (length (environments m)))) (dec 1 1)) (Fin u)))))
         (Fin 0))"
    using False cv
    by (simp add: estimateCost_def hourlyRates_at_def Let_def it_def [symmetric] rate_def assms(1))
  then show ?thesis using metered_nonneg [OF assms(2,3,4) rb] assms(5) by auto
qed

lemma analyzeRunner_cost:
  assumes "analyzeRunner now r envs = Inr m"
  shows "\<exists>c. estimatedCost m = Some c \<and> estimateCost (m\<lparr>estimatedCost := None\<rparr>) = Inr c"
  using assms by (auto simp: analyzeRunner_def Let_def split: sum.splits)

lemma analyzeRunner_nonneg:
  assumes a: "analyzeRunner now r envs = Inr m"
    and now: "\<bar>now\<bar> \<le> 8640000000000000"
    and len: "length envs < 2 ^ 32"
    and u: "uptime m = Fin u" "0 \<le> u"
  shows "\<exists>c. estimatedCost m = Some (Fin c) \<and> 0 \<le> c"
proof -
  from analyzeRunner_cost [OF a] obtain c where
    c: "estimatedCost m = Some c" "estimateCost (m\<lparr>estimatedCost := None\<rparr>) = Inr c" by blast
  from analyzeRunner_uptime_range [OF a now] u(1) have ub: "u \<le> 2 ^ 53" by auto
  have "length (environments m) \<le> length envs"
    by (simp add: analyzeRunner_environments [OF a])
  then have l: "length (environments (m\<lparr>estimatedCost := None\<rparr>)) < 2 ^ 32" using len by simp
  have "uptime (m\<lparr>estimatedCost := None\<rparr>) = Fin u" using u(1) by simp
  from estimateCost_Inr_nonneg [OF this u(2) ub l c(2)] show ?thesis using c(1) by auto
qed

lemma estimateCost_returns_nonneg:
  assumes "uptime m = Fin u" "0 \<le> u" "u \<le> 2 ^ 53"
    and "length (environments m) < 2 ^ 32"
    and "convertible (instanceType_of (systemDetails m))"
  shows "\<exists>c. estimateCost m = Inr (Fin c) \<and> 0 \<le> c"
proof -
  have "convertible (js_or (instanceType_of (systemDetails m)) (Str ''default''))"
    using assms(5) by (rule convertible_or_default)
  then have "\<exists>c. estimateCost m = Inr c"
    by (simp add: estimateCost_def hourlyRates_at_def Let_def)
  then obtain c where c: "estimateCost m = Inr c" by blast
  from estimateCost_Inr_nonneg [OF assms(1-4) c] show ?thesis using c by auto
qed

lemma estimateCost_not_NaN: "estimateCost m \<noteq> Inr NaN"
  by (auto simp: estimateCost_def Let_def num_or_def num_truthy_def split: sum.splits)

section \<open>The lines of the recommendations\<close>

lemma show_nat_nonempty: "show_nat n \<noteq> []"
  by (subst show_nat.simps) simp

lemma digit_char_inj:
  assumes "a < 10" "b < 10" "char_of (48 + a) = (char_of (48 + b) :: char)"
  shows "a = (b::nat)"
proof -
  have "of_char (char_of (48 + a) :: char) = (of_char (char_of (48 + b) :: char) :: nat)"
    using assms(3) by simp
  then show ?thesis using assms(1,2) by simp
qed

lemma show_nat_inj: "show_nat n = show_nat m \<Longrightarrow> n = m"
proof (induction n arbitrary: m rule: less_induct)
  case (less n)
  show ?case
  proof (cases "n < 10")
    case True
    show ?thesis
    proof (cases "m < 10")
      case m: True
      have "char_of (48 + n) = (char_of (48 + m) :: char)"
        using less.prems True m by (simp add: show_nat.simps [of n] show_nat.simps [of m])
      then show ?thesis using True m digit_char_inj by blast
    next
      case m: False
      have "[char_of (48 + n)] = show_nat (m div 10) @ [char_of (48 + m mod 10)]"
        using less.prems True m by (simp add: show_nat.simps [of n] show_nat.simps [of m])
      then have "show_nat (m div 10) = []" by simp
      then show ?thesis using show_nat_nonempty by blast
    qed
  next
    case False
    show ?thesis
    proof (cases "m < 10")
      case m: True
      have "show_nat (n div 10) @ [char_of (48 + n mod 10)] = [char_of (48 + m)]"
        using less.prems False m by (simp add: show_nat.simps [of n] show_nat.simps [of m])
      then have "show_nat (n div 10) = []" by simp
      then show ?thesis using show_nat_nonempty by blast
    next
      case m: False
      have "show_nat (n div 10) @ [char_of (48 + n mod 10)] = show_nat (m div 10) @ [char_of (48 + m mod 10)]"
        using less.prems False m by (simp add: show_nat.simps [of n] show_nat.simps [of m])
      then have a: "show_nat (n div 10) = show_nat (m div 10)"
        and b: "char_of (48 + n mod 10) = (char_of (48 + m mod 10) :: char)" by simp_all
      have "n div 10 < n" using False by simp
      from less.IH [OF this a] have d: "n div 10 = m div 10" .
      have "n mod 10 = m mod 10" using b by (intro digit_char_inj) simp_all
      then show ?thesis using d by (metis div_mult_mod_eq)
    qed
  qed
qed

lemmas line_defs = inactive_line_def uptime_line_def empty_line_def cost_line_def
  marker_red_def marker_yellow_def

lemma inactive_line_inj: "inactive_line a = inactive_line b \<longleftrightarrow> a = b"
  by (auto simp: line_defs dest: show_nat_inj)

lemma uptime_line_inj: "uptime_line a = uptime_line b \<longleftrightarrow> a = b"
  by (auto simp: line_defs dest: show_nat_inj)

lemma empty_line_inj: "empty_line a = empty_line b \<longleftrightarrow> a = b"
  by (auto simp: line_defs dest: show_nat_inj)

lemma cost_line_inj: "cost_line a = cost_line b \<longleftrightarrow> a = b"
  by (auto simp: line_defs dest: show_nat_inj)

lemma lines_distinct:
  "inactive_line a \<noteq> uptime_line b" "inactive_line a \<noteq> empty_line b" "inactive_line a \<noteq> cost_line b"
  "uptime_line a \<noteq> inactive_line b" "uptime_line a \<noteq> empty_line b" "uptime_line a \<noteq> cost_line b"
  "empty_line a \<noteq> inactive_line b" "empty_line a \<noteq> uptime_line b" "empty_line a \<noteq> cost_line b"
  "cost_line a \<noteq> inactive_line b" "cost_line a \<noteq> uptime_line b" "cost_line a \<noteq> empty_line b"
  by (simp_all add: line_defs)

lemma show_nat_1: "show_nat 1 = ''1''"
proof -
  have "of_char (char_of (49::nat) :: char) = (of_char (CHR ''1'') :: nat)" by simp
  then have "char_of (49::nat) = CHR ''1''" by (simp only: of_char_eq_iff)
  then show ?thesis by (subst show_nat.simps) simp
qed

lemma inactive_line_1: "inactive_line 1 = ''- '' @ marker_red @ '' Clean up 1 inactive runners'' @ [CHR 0x0A]"
  by (simp only: inactive_line_def show_nat_1) simp

section \<open>Regions and system details\<close>

lemma or_else_present: "present x \<Longrightarrow> Some (or_else x d) = x"
  by (cases x) (auto simp: present_def or_else_def)

lemma or_else_absent: "\<not> present x \<Longrightarrow> or_else x d = d"
  by (cases x) (auto simp: present_def or_else_def)

lemma JSON_parse_empty: "JSON_parse [] = Inl SyntaxError"
  by (simp add: JSON_parse_def)

lemma JSON_parse_not_json: "JSON_parse ''{not json'' = Inl SyntaxError"
  by (simp add: JSON_parse_def lex_step_def lex_start_def json_delimiter_def json_word_def
      json_number_def is_digit_def parse_step_def open_value_def take_key_def close_frame_def)

section \<open>The examples, evaluated\<close>

lemmas json_defs =
  JSON_parse_def lex_step_def lex_start_def json_delimiter_def json_word_def json_number_def
  is_digit_def parse_step_def open_value_def take_key_def close_frame_def deliver_def flush_def

lemma parse_t3_large:
  "JSON_parse ''{\"instanceType\":\"t3.large\"}'' = Inr (Obj [(''instanceType'', Str ''t3.large'')])"
  by (simp add: json_defs)

lemma number_1700018000: "Number_of_string ''1700018000'' = Fin (of_int 1700018000)"
  using fl_int [of 1700018000] by (simp add: number_defs)

lemma number_1700054000: "Number_of_string ''1700054000'' = Fin (of_int 1700054000)"
  using fl_int [of 1700054000] by (simp add: number_defs)

lemma uptime_remote: "calculateUptime clock0 (created_at remote_runner) = Fin 10"
  using uptime_formula [of "\<lparr>seconds = Some ''1700000000''\<rparr>" "''1700000000''" 1700000000 clock0]
    number_1700000000
  by (simp add: remote_runner_def clock0_def)

lemma uptime_local: "calculateUptime clock0 (created_at local_runner) = Fin 5"
  using uptime_formula [of "\<lparr>seconds = Some ''1700018000''\<rparr>" "''1700018000''" 1700018000 clock0]
    number_1700018000
  by (simp add: local_runner_def clock0_def)

lemma uptime_skewed: "calculateUptime clock0 (created_at skewed_runner) = Fin (- 5)"
  using uptime_formula [of "\<lparr>seconds = Some ''1700054000''\<rparr>" "''1700054000''" 1700054000 clock0]
    number_1700054000
  by (simp add: skewed_runner_def clock0_def)

lemmas example_defs =
  remote_runner_def local_runner_def skewed_runner_def env_a1_def env_a2_def env_orphan_def
  example_envs_def remote_metrics_def local_metrics_def skewed_metrics_def

lemma remote_cost: "estimateCost remote_metrics = Inr (dec 283 2)"
  by (rule scenario_cost) (simp_all add: remote_metrics_def)

lemma local_cost: "estimateCost local_metrics = Inr (Fin 0)"
  by (simp add: estimateCost_def local_metrics_def)

lemma skewed_base:
  "fmul (Fin (- 5)) (Fin (1498797955988901 / 36028797018963968)) = Fin (- 7493989779944505 / 36028797018963968)"
  unfolding fmul_def
  using fl_cert [of "-3" "- 5 * (1498797955988901 / 36028797018963968)" "- 7493989779944505"]
  by (simp add: power_int_minus_divide)

lemma skewed_sum:
  "fadd (Fin (- 7493989779944505 / 36028797018963968)) (Fin 0) = Fin (- 7493989779944505 / 36028797018963968)"
  using fl_exact [of "- 7493989779944505" "- 55"] by (simp add: fadd_Fin power_int_minus_divide)

lemma skewed_fixed: "toFixed2 (Fin (- 7493989779944505 / 36028797018963968)) = FixedDec True 21"
proof -
  have "\<lfloor>\<bar>- 7493989779944505 / 36028797018963968 :: rat\<bar> * 100 + 1 / 2\<rfloor> = 21"
    by (rule floor_unique) simp_all
  then show ?thesis by (simp add: toFixed2_def)
qed

lemma skewed_read_back:
  "Number_of_fixed (FixedDec True 21) = Fin (- 7566047373982433 / 36028797018963968)"
  unfolding Number_of_fixed_def
  using fl_cert [of "-3" "- 21 / 100" "- 7566047373982433"]
  by (simp add: power_int_minus_divide)

lemma skewed_cost:
  "estimateCost skewed_metrics = Inr (Fin (- 7566047373982433 / 36028797018963968))"
proof -
  have found: "hourlyRates_at (js_or (instanceType_of (systemDetails skewed_metrics)) (Str ''default''))
      = Inr (Num (dec 416 4))"
    by (simp add: skewed_metrics_def js_or_def hourlyRates_at_def hourlyRates_default)
  have rate: "ToNumber_rate (js_or (Num (dec 416 4)) (hourlyRates_get ''default''))
      = Fin (1498797955988901 / 36028797018963968)"
    unfolding dec_t3_medium by (simp add: js_or_def num_truthy_def)
  have surcharge: "fmul (fmul (Fin (of_nat (length (environments skewed_metrics)))) (dec 1 1)) (uptime skewed_metrics) = Fin 0"
    unfolding dec_tenth by (simp add: skewed_metrics_def fmul_Fin fl_def)
  have base: "fmul (uptime skewed_metrics) (Fin (1498797955988901 / 36028797018963968))
      = Fin (- 7493989779944505 / 36028797018963968)"
    using skewed_base by (simp add: skewed_metrics_def)
  have "num_or (Number_of_fixed (toFixed2 (fadd (Fin (- 7493989779944505 / 36028797018963968)) (Fin 0)))) (Fin 0)
      = Fin (- 7566047373982433 / 36028797018963968)"
    by (simp only: skewed_sum skewed_fixed skewed_read_back) (simp add: num_or_def num_truthy_def)
  then have "Inr (num_or (Number_of_fixed (toFixed2
        (fadd (fmul (uptime skewed_metrics) (ToNumber_rate (js_or (Num (dec 416 4)) (hourlyRates_get ''default''))))
           (fmul (fmul (Fin (of_nat (length (environments skewed_metrics)))) (dec 1 1)) (uptime skewed_metrics)))))
        (Fin 0)) = (Inr (Fin (- 7566047373982433 / 36028797018963968)) :: error + jsnum)"
    by (simp only: rate surcharge base)
  moreover have "RunnerMetrics.kind skewed_metrics \<noteq> ''RUNNER_KIND_LOCAL''"
    by (simp add: skewed_metrics_def)
  ultimately show ?thesis
    unfolding estimateCost_def Let_def found by (simp only: if_False sum.case)
qed

lemma analyze_remote:
  "analyzeRunner clock0 remote_runner example_envs = Inr (remote_metrics\<lparr>estimatedCost := Some (dec 283 2)\<rparr>)"
proof -
  have "parseSystemDetails (Some ''{\"instanceType\":\"t3.large\"}'') = Obj [(''instanceType'', Str ''t3.large'')]"
    by (simp add: parseSystemDetails_def parse_t3_large)
  then have "analyzeRunner clock0 remote_runner example_envs =
    (case estimateCost remote_metrics of
       Inl e \<Rightarrow> Inl e
     | Inr c \<Rightarrow> Inr (remote_metrics\<lparr>estimatedCost := Some c\<rparr>))"
    using uptime_remote
    by (simp add: analyzeRunner_def Let_def example_defs num_or_def num_truthy_def or_else_def
        getRegion_def status_region_def spec_region_def split: sum.split)
  then show ?thesis by (simp add: remote_cost)
qed

lemma analyze_local:
  "analyzeRunner clock0 local_runner example_envs = Inr (local_metrics\<lparr>estimatedCost := Some (Fin 0)\<rparr>)"
proof -
  have "analyzeRunner clock0 local_runner example_envs =
    (case estimateCost local_metrics of
       Inl e \<Rightarrow> Inl e
     | Inr c \<Rightarrow> Inr (local_metrics\<lparr>estimatedCost := Some c\<rparr>))"
    using uptime_local
    by (simp add: analyzeRunner_def Let_def example_defs num_or_def num_truthy_def or_else_def
        getRegion_def status_region_def spec_region_def parseSystemDetails_def split: sum.split)
  then show ?thesis by (simp add: local_cost)
qed

lemma analyze_skewed:
  "analyzeRunner clock0 skewed_runner [] =
     Inr (skewed_metrics\<lparr>estimatedCost := Some (Fin (- 7566047373982433 / 36028797018963968))\<rparr>)"
proof -
  have "analyzeRunner clock0 skewed_runner [] =
    (case estimateCost skewed_metrics of
       Inl e \<Rightarrow> Inl e
     | Inr c \<Rightarrow> Inr (skewed_metrics\<lparr>estimatedCost := Some c\<rparr>))"
    using uptime_skewed
    by (simp add: analyzeRunner_def Let_def example_defs num_or_def num_truthy_def or_else_def
        getRegion_def status_region_def spec_region_def parseSystemDetails_def split: sum.split)
  then show ?thesis by (simp add: skewed_cost)
qed

lemma analyze_all_example:
  "analyzeAll (\<lambda>i. clock0) [remote_runner, local_runner] example_envs =
     Inr [remote_metrics\<lparr>estimatedCost := Some (dec 283 2)\<rparr>, local_metrics\<lparr>estimatedCost := Some (Fin 0)\<rparr>]"
  by (simp add: analyzeAll_def analyze_remote analyze_local)

section \<open>The metered path\<close>

text \<open>
  The estimate of a record that is not local, with an instance type that is a string or
  is absent, is the total of the specification at the rate of the tier.
\<close>

lemmas metered_defs = spec_metered_cost_def spec_base_cost_def spec_environment_surcharge_def

lemma fl_pos:
  assumes "1 / 100 \<le> x" "x \<le> B" "2 * B < 2 ^ 1024"
  shows "\<exists>r. fl x = Fin r \<and> x / 2 \<le> r \<and> r \<le> 2 * B"
proof -
  have x0: "0 \<le> x" using assms(1) by linarith
  from fl_bounded [OF x0 assms(2,3)] obtain r where r: "fl x = Fin r" "0 \<le> r" "r \<le> 2 * B" by blast
  have xn: "x \<noteq> 0" using assms(1) by auto
  have "(2::rat) ^ 1024 = 2 * 2 ^ 1023" by simp
  then have "\<bar>x\<bar> < 2 ^ 1023" using assms(2,3) x0 by linarith
  from fl_error [OF xn this] obtain r' where
    r': "fl x = Fin r'" "\<bar>r' - x\<bar> \<le> max (\<bar>x\<bar> / 2 ^ 53) (1 / 2 ^ 1075)" by blast
  have eq: "r' = r" using r(1) r'(1) by simp
  have "\<bar>x\<bar> / 2 ^ 53 \<le> x / 2" using x0 by (simp add: divide_le_eq)
  moreover have "(1::rat) / 2 ^ 1075 \<le> 1 / 200" by simp
  then have "(1::rat) / 2 ^ 1075 \<le> x / 2" using assms(1) by linarith
  ultimately have "\<bar>r - x\<bar> \<le> x / 2" using r'(2) eq by (simp add: max_def split: if_splits)
  then have "x / 2 \<le> r" by linarith
  then show ?thesis using r by blast
qed

lemma read_back_pos:
  assumes "1 / 100 \<le> s" "s \<le> 2 ^ 100"
  shows "\<exists>c. num_or (Number_of_fixed (toFixed2 (Fin s))) (Fin 0) = Fin c \<and> 0 < c"
proof (cases "10 ^ 21 \<le> \<bar>s\<bar>")
  case True
  then have "Number_of_fixed (toFixed2 (Fin s)) = Fin s"
    by (simp add: toFixed2_def Number_of_fixed_def)
  moreover have "0 < s" using assms(1) by linarith
  ultimately show ?thesis by (auto simp: num_or_def num_truthy_def)
next
  case False
  have s0: "0 \<le> s" using assms(1) by linarith
  define n where "n = nat \<lfloor>\<bar>s\<bar> * 100 + 1 / 2\<rfloor>"
  have t: "toFixed2 (Fin s) = FixedDec False n"
    using False s0 by (simp add: toFixed2_def n_def)
  have s21: "s < 10 ^ 21" using False s0 by simp
  have "(1::rat) \<le> \<bar>s\<bar> * 100 + 1 / 2" using assms(1) s0 by simp
  then have f1: "1 \<le> \<lfloor>\<bar>s\<bar> * 100 + 1 / 2\<rfloor>" by (simp add: le_floor_iff)
  then have nf: "(of_nat n :: rat) = of_int \<lfloor>\<bar>s\<bar> * 100 + 1 / 2\<rfloor>" by (simp add: n_def)
  have "(of_int \<lfloor>\<bar>s\<bar> * 100 + 1 / 2\<rfloor> :: rat) \<le> \<bar>s\<bar> * 100 + 1 / 2" by (rule of_int_floor_le)
  then have nb: "(of_nat n :: rat) \<le> s * 100 + 1 / 2" using nf s0 by simp
  have "(1::rat) \<le> of_int \<lfloor>\<bar>s\<bar> * 100 + 1 / 2\<rfloor>" using f1 by simp
  then have n1: "(1::rat) \<le> of_nat n" using nf by simp
  have x0: "(1::rat) / 100 \<le> of_nat n / 100" using n1 by (simp add: divide_right_mono)
  have xB: "(of_nat n :: rat) / 100 \<le> 10 ^ 21 + 1" using nb s21 by simp
  have "2 * ((10::rat) ^ 21 + 1) < 2 ^ 1024" by simp
  from fl_pos [OF x0 xB this] obtain r where r: "fl (of_nat n / 100) = Fin r" "of_nat n / 100 / 2 \<le> r" by blast
  have rp: "0 < r" using r(2) x0 by linarith
  have "Number_of_fixed (toFixed2 (Fin s)) = Fin r" by (simp add: t Number_of_fixed_def r)
  then show ?thesis using rp by (auto simp: num_or_def num_truthy_def)
qed

lemma spec_metered_cost_pos:
  assumes u: "1 \<le> u" "u \<le> 2 ^ 53" and n: "n < 2 ^ 32"
    and a: "1 / 25 \<le> a" "a \<le> 1"
  shows "\<exists>c. spec_metered_cost (Fin a) (Fin u) n = Fin c \<and> 0 < c"
proof -
  have u0: "0 \<le> u" using u(1) by linarith
  have nn: "(of_nat n :: rat) \<le> 2 ^ 32"
  proof -
    have "(of_nat n :: rat) \<le> of_nat (2 ^ 32)" using n by (simp only: of_nat_le_iff)
    then show ?thesis by simp
  qed
  have "(0::rat) \<le> of_nat n * (3602879701896397 / 36028797018963968)" by simp
  moreover have "(of_nat n :: rat) * (3602879701896397 / 36028797018963968) \<le> 2 ^ 32 * 1"
    using nn by (intro mult_mono) simp_all
  moreover have "2 * ((2::rat) ^ 32 * 1) < 2 ^ 1024" by simp
  ultimately obtain e1 where e1: "fl (of_nat n * (3602879701896397 / 36028797018963968)) = Fin e1" "0 \<le> e1" "e1 \<le> 2 * (2 ^ 32 * 1)"
    using fl_bounded by blast
  have "0 \<le> e1 * u" using e1(2) u0 by simp
  moreover have "e1 * u \<le> 2 * (2 ^ 32 * 1) * 2 ^ 53" using e1(2,3) u u0 by (intro mult_mono) simp_all
  moreover have "2 * (2 * ((2::rat) ^ 32 * 1) * 2 ^ 53) < 2 ^ 1024" by simp
  ultimately obtain e2 where e2: "fl (e1 * u) = Fin e2" "0 \<le> e2" "e2 \<le> 2 * (2 * (2 ^ 32 * 1) * 2 ^ 53)"
    using fl_bounded by blast
  have env: "fmul (fmul (Fin (of_nat n)) (dec 1 1)) (Fin u) = Fin e2"
    by (simp only: dec_tenth fmul_Fin e1(1) e2(1))
  have a0: "0 \<le> a" using a(1) by linarith
  have "1 * (1 / 25) \<le> u * a" using u(1) a(1) by (intro mult_mono) simp_all
  then have "1 / 100 \<le> u * a" by simp
  moreover have "u * a \<le> 2 ^ 53 * 1" using a a0 u u0 by (intro mult_mono) simp_all
  moreover have "2 * ((2::rat) ^ 53 * 1) < 2 ^ 1024" by simp
  ultimately obtain c where c: "fl (u * a) = Fin c" "u * a / 2 \<le> c" "c \<le> 2 * (2 ^ 53 * 1)"
    using fl_pos by blast
  have c50: "1 / 50 \<le> c" using c(2) \<open>1 * (1 / 25) \<le> u * a\<close> by simp
  have "1 / 100 \<le> c + e2" using c50 e2(2) by linarith
  moreover have "c + e2 \<le> 2 ^ 90" using c(3) e2(3) by simp
  moreover have "2 * (2::rat) ^ 90 < 2 ^ 1024" by simp
  ultimately obtain s where s: "fl (c + e2) = Fin s" "(c + e2) / 2 \<le> s" "s \<le> 2 * 2 ^ 90"
    using fl_pos by blast
  have s1: "1 / 100 \<le> s" using s(2) c50 e2(2) by simp
  have s2: "s \<le> 2 ^ 100" using s(3) by simp
  have "fadd (fmul (Fin u) (Fin a)) (fmul (fmul (Fin (of_nat n)) (dec 1 1)) (Fin u)) = Fin s"
    by (simp only: env fmul_Fin c(1) fadd_Fin s(1))
  then have "spec_metered_cost (Fin a) (Fin u) n = num_or (Number_of_fixed (toFixed2 (Fin s))) (Fin 0)"
    by (simp only: metered_defs)
  then show ?thesis using read_back_pos [OF s1 s2] by (simp only:)
qed

lemma spec_tier_rate_bounds: "\<exists>a. spec_tier_rate t = Fin a \<and> 1 / 25 \<le> a \<and> a \<le> 1"
proof -
  have a: "\<exists>a. dec 416 4 = Fin a \<and> 1 / 25 \<le> a \<and> a \<le> 1"
    unfolding dec_t3_medium by (rule exI [of _ "1498797955988901 / 36028797018963968"]) simp
  have b: "\<exists>a. dec 832 4 = Fin a \<and> 1 / 25 \<le> a \<and> a \<le> 1"
    unfolding dec_t3_large by (rule exI [of _ "1498797955988901 / 18014398509481984"]) simp
  have c: "\<exists>a. dec 1664 4 = Fin a \<and> 1 / 25 \<le> a \<and> a \<le> 1"
    unfolding dec_t3_xlarge by (rule exI [of _ "1498797955988901 / 9007199254740992"]) simp
  show ?thesis unfolding spec_tier_rate_def using a b c by (simp only: split: if_splits) auto
qed

lemma spec_tier_rate_truthy: "truthy (Num (spec_tier_rate t))"
  using spec_tier_rate_bounds [of t] by (auto simp: num_truthy_def)

lemma hourlyRates_get_tier:
  assumes "t \<notin> set Object_prototype_names"
  shows "js_or (hourlyRates_get t) (hourlyRates_get ''default'') = Num (spec_tier_rate t)"
proof -
  have d: "hourlyRates_get ''default'' = Num (dec 416 4)" by (rule hourlyRates_default)
  consider "t = ''t3.medium''" | "t = ''t3.large''" | "t = ''t3.xlarge''" | "t = ''default''"
    | "t \<noteq> ''t3.medium''" "t \<noteq> ''t3.large''" "t \<noteq> ''t3.xlarge''" "t \<noteq> ''default''"
    by blast
  then show ?thesis
  proof cases
    case 5
    then have "hourlyRates_get t = Undefined"
      using assms by (simp add: hourlyRates_get_def hourlyRates_def)
    moreover have "spec_tier_rate t = dec 416 4" using 5 by (simp add: spec_tier_rate_def)
    ultimately show ?thesis by (simp add: js_or_def d)
  next
    case 1
    then have "hourlyRates_get t = Num (spec_tier_rate t)"
      by (simp add: hourlyRates_get_def hourlyRates_def spec_tier_rate_def)
    then show ?thesis using spec_tier_rate_truthy [of t] by (simp add: js_or_def)
  next
    case 2
    then have "hourlyRates_get t = Num (spec_tier_rate t)"
      by (simp add: hourlyRates_get_def hourlyRates_def spec_tier_rate_def)
    then show ?thesis using spec_tier_rate_truthy [of t] by (simp add: js_or_def)
  next
    case 3
    then have "hourlyRates_get t = Num (spec_tier_rate t)"
      by (simp add: hourlyRates_get_def hourlyRates_def spec_tier_rate_def)
    then show ?thesis using spec_tier_rate_truthy [of t] by (simp add: js_or_def)
  next
    case 4
    then have "hourlyRates_get t = Num (spec_tier_rate t)"
      by (simp add: hourlyRates_get_def hourlyRates_def spec_tier_rate_def)
    then show ?thesis using spec_tier_rate_truthy [of t] by (simp add: js_or_def)
  qed
qed

lemma default_not_inherited: "''default'' \<notin> set Object_prototype_names"
  by (simp add: Object_prototype_names_def)

lemma estimateCost_metered_string:
  assumes "RunnerMetrics.kind m \<noteq> ''RUNNER_KIND_LOCAL''"
    and "instanceType_of (systemDetails m) = Str t" "t \<noteq> []" "t \<notin> set Object_prototype_names"
  shows "estimateCost m = Inr (spec_metered_cost (spec_tier_rate t) (uptime m) (length (environments m)))"
proof -
  have it: "js_or (instanceType_of (systemDetails m)) (Str ''default'') = Str t"
    using assms(2,3) by (simp add: js_or_def)
  have found: "hourlyRates_at (Str t) = Inr (hourlyRates_get t)"
    by (simp add: hourlyRates_at_def)
  have rate: "ToNumber_rate (js_or (hourlyRates_get t) (hourlyRates_get ''default'')) = spec_tier_rate t"
    by (simp only: hourlyRates_get_tier [OF assms(4)] ToNumber_rate.simps)
  show ?thesis
    unfolding estimateCost_def Let_def it found metered_defs using assms(1)
    by (simp only: if_False sum.case rate)
qed

lemma estimateCost_metered_default:
  assumes "RunnerMetrics.kind m \<noteq> ''RUNNER_KIND_LOCAL''"
    and "\<not> truthy (instanceType_of (systemDetails m))"
  shows "estimateCost m = Inr (spec_metered_cost (dec 416 4) (uptime m) (length (environments m)))"
proof -
  have it: "js_or (instanceType_of (systemDetails m)) (Str ''default'') = Str ''default''"
    using assms(2) by (simp add: js_or_def)
  have found: "hourlyRates_at (Str ''default'') = Inr (hourlyRates_get ''default'')"
    by (simp add: hourlyRates_at_def)
  have "spec_tier_rate ''default'' = dec 416 4" by (simp add: spec_tier_rate_def)
  then have rate: "ToNumber_rate (js_or (hourlyRates_get ''default'') (hourlyRates_get ''default'')) = dec 416 4"
    by (simp only: hourlyRates_get_tier [OF default_not_inherited] ToNumber_rate.simps)
  show ?thesis
    unfolding estimateCost_def Let_def it found metered_defs using assms(1)
    by (simp only: if_False sum.case rate)
qed

lemma default_base:
  "fmul (Fin 10) (Fin (1498797955988901 / 36028797018963968)) = Fin (7493989779944505 / 18014398509481984)"
  unfolding fmul_def
  using fl_cert [of "-2" "10 * (1498797955988901 / 36028797018963968)" 7493989779944505]
  by (simp add: power_int_minus_divide)

lemma default_sum:
  "fadd (Fin (7493989779944505 / 18014398509481984)) (Fin 2) = Fin (5440348349863559 / 2251799813685248)"
  unfolding fadd_def
  using fl_cert [of "1" "7493989779944505 / 18014398509481984 + 2" 5440348349863559]
  by (simp add: power_int_minus_divide)

lemma default_fixed: "toFixed2 (Fin (5440348349863559 / 2251799813685248)) = FixedDec False 242"
proof -
  have "\<lfloor>(5440348349863559 / 2251799813685248 :: rat) * 100 + 1 / 2\<rfloor> = 242"
    by (rule floor_unique) simp_all
  then show ?thesis by (simp add: toFixed2_def)
qed

lemma dec_2_42: "dec 242 2 = Fin (1362338887279575 / 562949953421312)"
  unfolding dec_def using fl_cert [of "1" "of_int 242 / 10 ^ 2" 5449355549118300]
  by (simp add: power_int_minus_divide)

lemma default_read_back: "Number_of_fixed (FixedDec False 242) = dec 242 2"
  by (simp add: Number_of_fixed_def dec_def)

lemma metered_default_example: "spec_metered_cost (dec 416 4) (Fin 10) 2 = dec 242 2"
proof -
  have two: "Fin (of_nat 2) = Fin 2" by simp
  have "num_truthy (dec 242 2)" unfolding dec_2_42 by (simp add: num_truthy_def)
  then have "num_or (dec 242 2) (Fin 0) = dec 242 2" by (simp add: num_or_def)
  then show ?thesis
    unfolding metered_defs
    by (simp only: two dec_t3_medium dec_tenth default_base scenario_two_tenths scenario_surcharge
        default_sum default_fixed default_read_back)
qed

lemma metered_large_example: "spec_metered_cost (spec_tier_rate ''t3.large'') (Fin 10) 2 = dec 283 2"
proof -
  have two: "Fin (of_nat 2) = Fin 2" by simp
  have t: "spec_tier_rate ''t3.large'' = dec 832 4" by (simp add: spec_tier_rate_def)
  have "num_truthy (dec 283 2)" unfolding dec_2_83 by (simp add: num_truthy_def)
  then have "num_or (dec 283 2) (Fin 0) = dec 283 2" by (simp add: num_or_def)
  then show ?thesis
    unfolding metered_defs t
    by (simp only: two dec_t3_large dec_tenth scenario_base scenario_two_tenths scenario_surcharge
        scenario_sum scenario_fixed scenario_read_back)
qed

section \<open>The claims\<close>

subsection \<open>Cost of a local runner\<close>

text \<open>
  C1: for every metrics record whose kind is \<open>RUNNER_KIND_LOCAL\<close>, \<open>estimateCost\<close>
  returns exactly 0, whatever the uptime, the attached environments and the system
  details of the record are.
\<close>

theorem estimateCost_local:
  "RunnerMetrics.kind m = ''RUNNER_KIND_LOCAL'' \<Longrightarrow> estimateCost m = Inr (Fin 0)"
  by (simp add: estimateCost_def)

theorem estimateCost_local_witness:
  "RunnerMetrics.kind local_metrics = ''RUNNER_KIND_LOCAL'' \<and>
   uptime local_metrics = Fin 5 \<and>
   estimateCost local_metrics = Inr (Fin 0) \<and>
   estimateCost (remote_metrics\<lparr>RunnerMetrics.kind := ''RUNNER_KIND_LOCAL''\<rparr>) = Inr (Fin 0)"
  using estimateCost_local [of local_metrics]
    estimateCost_local [of "remote_metrics\<lparr>RunnerMetrics.kind := ''RUNNER_KIND_LOCAL''\<rparr>"]
  by (simp add: local_metrics_def)

subsection \<open>Sign and finiteness of the estimate\<close>

text \<open>
  C2 as stated fails.  A runner created five hours after the clock reading gets the
  uptime \<open>-5\<close>, and the estimate attached to its record is the double nearest to
  \<open>-0.21\<close>: \<open>estimateCost\<close> guards against \<open>NaN\<close> only.  A record whose
  instance type is an object with an own \<open>toString\<close> entry gets no estimate at all:
  the lookup in the rate table throws.
\<close>

theorem estimateCost_negative_counterexample:
  "analyzeRunner clock0 skewed_runner [] =
     Inr (skewed_metrics\<lparr>estimatedCost := Some (Fin (- 7566047373982433 / 36028797018963968))\<rparr>) \<and>
   uptime skewed_metrics = Fin (- 5) \<and>
   estimateCost skewed_metrics = Inr (Fin (- 7566047373982433 / 36028797018963968)) \<and>
   (- 7566047373982433 / 36028797018963968 :: rat) < 0 \<and>
   JSON_parse ''{\"instanceType\":{\"toString\":null}}'' =
     Inr (Obj [(''instanceType'', Obj [(''toString'', Null)])]) \<and>
   estimateCost (remote_metrics\<lparr>systemDetails := Obj [(''instanceType'', Obj [(''toString'', Null)])]\<rparr>) =
     Inl TypeError"
proof -
  have "JSON_parse ''{\"instanceType\":{\"toString\":null}}'' =
     Inr (Obj [(''instanceType'', Obj [(''toString'', Null)])])"
    by (simp add: json_defs)
  moreover have "estimateCost (remote_metrics\<lparr>systemDetails := Obj [(''instanceType'', Obj [(''toString'', Null)])]\<rparr>) =
     Inl TypeError"
    by (simp add: remote_metrics_def estimateCost_def js_or_def hourlyRates_at_def)
  moreover have "uptime skewed_metrics = Fin (- 5)" by (simp add: skewed_metrics_def)
  ultimately show ?thesis using analyze_skewed skewed_cost by simp
qed

text \<open>
  C2, amended: for every metrics record whose uptime is a finite number from 0 to
  \<open>2^53\<close>, with fewer than \<open>2^32\<close> attached environments and an instance type that
  converts to a property key (absent, or any value other than an object with an own
  \<open>toString\<close> entry or an array holding one), \<open>estimateCost\<close> returns a finite
  number that is at least 0; and for no record at all does it return \<open>NaN\<close>.
  Derivation gives no uptime beyond \<open>2^53\<close> in magnitude, and the estimate it attaches
  to a record whose uptime is not negative is finite and at least 0.
\<close>

theorem estimateCost_nonneg_finite:
  "(uptime m = Fin u \<and> 0 \<le> u \<and> u \<le> 2 ^ 53 \<and> length (environments m) < 2 ^ 32 \<and>
    convertible (instanceType_of (systemDetails m)) \<longrightarrow>
      (\<exists>c. estimateCost m = Inr (Fin c) \<and> 0 \<le> c)) \<and>
   estimateCost m' \<noteq> Inr NaN \<and>
   (analyzeRunner now r envs = Inr dm \<and> \<bar>now\<bar> \<le> 8640000000000000 \<and> length envs < 2 ^ 32 \<longrightarrow>
      (\<exists>v. uptime dm = Fin v \<and> \<bar>v\<bar> \<le> 2 ^ 53 \<and>
         (0 \<le> v \<longrightarrow> (\<exists>c. estimatedCost dm = Some (Fin c) \<and> 0 \<le> c))))"
proof (intro conjI impI)
  assume "uptime m = Fin u \<and> 0 \<le> u \<and> u \<le> 2 ^ 53 \<and> length (environments m) < 2 ^ 32 \<and>
    convertible (instanceType_of (systemDetails m))"
  then show "\<exists>c. estimateCost m = Inr (Fin c) \<and> 0 \<le> c"
    using estimateCost_returns_nonneg [of m u] by blast
next
  show "estimateCost m' \<noteq> Inr NaN" by (rule estimateCost_not_NaN)
next
  assume a: "analyzeRunner now r envs = Inr dm \<and> \<bar>now\<bar> \<le> 8640000000000000 \<and> length envs < 2 ^ 32"
  then obtain v where v: "uptime dm = Fin v" "\<bar>v\<bar> \<le> 2 ^ 53"
    using analyzeRunner_uptime_range [of now r envs dm] by blast
  have "0 \<le> v \<longrightarrow> (\<exists>c. estimatedCost dm = Some (Fin c) \<and> 0 \<le> c)"
    using a v(1) analyzeRunner_nonneg [of now r envs dm v] by blast
  then show "\<exists>v. uptime dm = Fin v \<and> \<bar>v\<bar> \<le> 2 ^ 53 \<and>
         (0 \<le> v \<longrightarrow> (\<exists>c. estimatedCost dm = Some (Fin c) \<and> 0 \<le> c))"
    using v by blast
qed

theorem estimateCost_nonneg_finite_witness:
  "uptime remote_metrics = Fin 10 \<and> (0::rat) \<le> 10 \<and> (10::rat) \<le> 2 ^ 53 \<and>
   length (environments remote_metrics) < 2 ^ 32 \<and>
   convertible (instanceType_of (systemDetails remote_metrics)) \<and>
   (\<exists>c. estimateCost remote_metrics = Inr (Fin c) \<and> 0 \<le> c) \<and>
   (\<exists>c. estimateCost (remote_metrics\<lparr>systemDetails := Obj [(''raw'', Str ''{not json'')]\<rparr>) = Inr (Fin c) \<and> 0 \<le> c) \<and>
   estimateCost skewed_metrics \<noteq> Inr NaN \<and>
   analyzeRunner clock0 remote_runner example_envs =
     Inr (remote_metrics\<lparr>estimatedCost := Some (dec 283 2)\<rparr>) \<and>
   \<bar>clock0\<bar> \<le> 8640000000000000 \<and> length example_envs < 2 ^ 32 \<and>
   (\<exists>c. estimatedCost (remote_metrics\<lparr>estimatedCost := Some (dec 283 2)\<rparr>) = Some (Fin c) \<and> 0 \<le> c)"
proof -
  have c: "\<bar>clock0\<bar> \<le> 8640000000000000" "length example_envs < 2 ^ 32"
    by (simp_all add: clock0_def example_envs_def)
  have u: "uptime (remote_metrics\<lparr>estimatedCost := Some (dec 283 2)\<rparr>) = Fin 10"
    by (simp add: remote_metrics_def)
  from estimateCost_nonneg_finite
      [of remote_metrics 10 skewed_metrics clock0 remote_runner example_envs
        "remote_metrics\<lparr>estimatedCost := Some (dec 283 2)\<rparr>"]
    analyze_remote c u
  have d: "\<exists>c. estimatedCost (remote_metrics\<lparr>estimatedCost := Some (dec 283 2)\<rparr>) = Some (Fin c) \<and> 0 \<le> c"
    by auto
  show ?thesis
    using estimateCost_nonneg_finite [of remote_metrics 10 skewed_metrics]
      estimateCost_nonneg_finite
        [of "remote_metrics\<lparr>systemDetails := Obj [(''raw'', Str ''{not json'')]\<rparr>" 10 skewed_metrics]
      analyze_remote c d
    by (simp add: remote_metrics_def)
qed

subsection \<open>Uptime\<close>

text \<open>
  C3 as stated fails: \<open>calculateUptime\<close> returns 0 for a missing creation time only.
  For a creation time five hours after the clock reading it returns \<open>-5\<close>.
\<close>

theorem calculateUptime_negative_counterexample:
  "created_at skewed_runner = Some \<lparr>seconds = Some ''1700054000''\<rparr> \<and>
   clock0 = 1700036000000 \<and>
   calculateUptime clock0 (created_at skewed_runner) = Fin (- 5)"
proof -
  have "created_at skewed_runner = Some \<lparr>seconds = Some ''1700054000''\<rparr>"
    by (simp add: skewed_runner_def)
  then show ?thesis using uptime_skewed by (simp add: clock0_def)
qed

text \<open>
  C3, amended: the uptime is 0 when \<open>createdAt\<close> is missing or its seconds component
  is missing or empty.  When the seconds component reads as a whole number \<open>n\<close> of
  seconds, within the range of dates and less than \<open>2^53\<close> milliseconds away from the
  clock reading, the uptime is \<open>floor((now - createdAt) / 1 hour)\<close>, the whole number
  \<open>(now - 1000 * n) div 3600000\<close>; it is negative when \<open>createdAt\<close> lies after
  \<open>now\<close>.  When the seconds component does not read as a number the result is
  \<open>NaN\<close>, which derivation replaces by 0.
\<close>

theorem calculateUptime_floor:
  "calculateUptime now None = Fin 0 \<and>
   (seconds c = None \<or> seconds c = Some [] \<longrightarrow> calculateUptime now (Some c) = Fin 0) \<and>
   (seconds c = Some s \<and> s \<noteq> [] \<and> Number_of_string s = Fin (of_int n) \<and>
    \<bar>n * 1000\<bar> \<le> 8640000000000000 \<and> \<bar>now - n * 1000\<bar> < 2 ^ 53 \<longrightarrow>
      calculateUptime now (Some c) = Fin (of_int ((now - n * 1000) div 3600000))) \<and>
   (seconds c = Some s \<and> s \<noteq> [] \<and> Number_of_string s = NaN \<longrightarrow>
      calculateUptime now (Some c) = NaN \<and> num_or (calculateUptime now (Some c)) (Fin 0) = Fin 0)"
proof (intro conjI impI)
  show "calculateUptime now None = Fin 0" by (simp add: calculateUptime_def)
next
  assume "seconds c = None \<or> seconds c = Some []"
  then show "calculateUptime now (Some c) = Fin 0" by (auto simp: calculateUptime_def)
next
  assume "seconds c = Some s \<and> s \<noteq> [] \<and> Number_of_string s = Fin (of_int n) \<and>
    \<bar>n * 1000\<bar> \<le> 8640000000000000 \<and> \<bar>now - n * 1000\<bar> < 2 ^ 53"
  then show "calculateUptime now (Some c) = Fin (of_int ((now - n * 1000) div 3600000))"
    using uptime_formula [of c s n now] by blast
next
  assume a: "seconds c = Some s \<and> s \<noteq> [] \<and> Number_of_string s = NaN"
  then have "calculateUptime now (Some c) =
      Math_floor (fdiv (fsub (Fin (of_int now)) (TimeClip (fmul NaN (Fin 1000)))) (Fin 3600000))"
    by (simp add: calculateUptime_def Let_def hour_ms Date_now_def getTime_def new_Date_def)
  also have "\<dots> = NaN"
    by (simp add: fmul_def TimeClip_def fsub_def fadd_def fdiv_def)
  finally show u: "calculateUptime now (Some c) = NaN" .
  show "num_or (calculateUptime now (Some c)) (Fin 0) = Fin 0"
    by (simp add: u num_or_def num_truthy_def)
qed

theorem calculateUptime_floor_witness:
  "calculateUptime clock0 None = Fin 0 \<and>
   calculateUptime clock0 (Some \<lparr>seconds = Some ''''\<rparr>) = Fin 0 \<and>
   Number_of_string ''1700000000'' = Fin 1700000000 \<and>
   calculateUptime 1700036000000 (Some \<lparr>seconds = Some ''1700000000''\<rparr>) = Fin 10 \<and>
   calculateUptime 1700039599999 (Some \<lparr>seconds = Some ''1700000000''\<rparr>) = Fin 10 \<and>
   calculateUptime 1700000000000 (Some \<lparr>seconds = Some ''1700000000''\<rparr>) = Fin 0 \<and>
   calculateUptime 1699999999999 (Some \<lparr>seconds = Some ''1700000000''\<rparr>) = Fin (- 1) \<and>
   Number_of_string ''soon'' = NaN \<and>
   calculateUptime clock0 (Some \<lparr>seconds = Some ''soon''\<rparr>) = NaN"
  using calculateUptime_floor [of clock0 "\<lparr>seconds = Some ''''\<rparr>" "''''" 0]
    calculateUptime_floor [of 1700036000000 "\<lparr>seconds = Some ''1700000000''\<rparr>" "''1700000000''" 1700000000]
    calculateUptime_floor [of 1700039599999 "\<lparr>seconds = Some ''1700000000''\<rparr>" "''1700000000''" 1700000000]
    calculateUptime_floor [of 1700000000000 "\<lparr>seconds = Some ''1700000000''\<rparr>" "''1700000000''" 1700000000]
    calculateUptime_floor [of 1699999999999 "\<lparr>seconds = Some ''1700000000''\<rparr>" "''1700000000''" 1700000000]
    calculateUptime_floor [of clock0 "\<lparr>seconds = Some ''soon''\<rparr>" "''soon''" 0]
    number_1700000000
  by (simp add: number_defs)

subsection \<open>Region\<close>

text \<open>
  C4: the region of a runner is the region its status reports when that one is present;
  otherwise the region of its configuration when that one is present; otherwise the
  text \<open>unknown\<close>.  A status region \<open>us-east\<close> wins over a configured region
  \<open>eu-west\<close>.
\<close>

theorem getRegion_precedence:
  "(present (status_region r) \<longrightarrow> Some (getRegion r) = status_region r) \<and>
   (\<not> present (status_region r) \<and> present (spec_region r) \<longrightarrow> Some (getRegion r) = spec_region r) \<and>
   (\<not> present (status_region r) \<and> \<not> present (spec_region r) \<longrightarrow> getRegion r = ''unknown'')"
  by (simp add: getRegion_def or_else_present or_else_absent)

theorem getRegion_precedence_witness:
  "getRegion \<lparr>Runner.runner_id = Some ''r1'', Runner.name = Some ''n'', Runner.kind = Some ''RUNNER_KIND_REMOTE'',
      created_at = None,
      spec = Some \<lparr>configuration = Some \<lparr>Configuration.region = Some ''eu-west''\<rparr>\<rparr>,
      Runner.status = Some \<lparr>system_details = None, Status.phase = None, Status.region = Some ''us-east''\<rparr>\<rparr> = ''us-east'' \<and>
   getRegion \<lparr>Runner.runner_id = Some ''r2'', Runner.name = None, Runner.kind = None, created_at = None,
      spec = Some \<lparr>configuration = Some \<lparr>Configuration.region = Some ''eu-west''\<rparr>\<rparr>,
      Runner.status = Some \<lparr>system_details = None, Status.phase = None, Status.region = Some ''''\<rparr>\<rparr> = ''eu-west'' \<and>
   getRegion \<lparr>Runner.runner_id = Some ''r3'', Runner.name = None, Runner.kind = None, created_at = None,
      spec = None, Runner.status = None\<rparr> = ''unknown''"
  using getRegion_precedence [of "\<lparr>Runner.runner_id = Some ''r1'', Runner.name = Some ''n'', Runner.kind = Some ''RUNNER_KIND_REMOTE'',
      created_at = None,
      spec = Some \<lparr>configuration = Some \<lparr>Configuration.region = Some ''eu-west''\<rparr>\<rparr>,
      Runner.status = Some \<lparr>system_details = None, Status.phase = None, Status.region = Some ''us-east''\<rparr>\<rparr>"]
    getRegion_precedence [of "\<lparr>Runner.runner_id = Some ''r2'', Runner.name = None, Runner.kind = None, created_at = None,
      spec = Some \<lparr>configuration = Some \<lparr>Configuration.region = Some ''eu-west''\<rparr>\<rparr>,
      Runner.status = Some \<lparr>system_details = None, Status.phase = None, Status.region = Some ''''\<rparr>\<rparr>"]
    getRegion_precedence [of "\<lparr>Runner.runner_id = Some ''r3'', Runner.name = None, Runner.kind = None, created_at = None,
      spec = None, Runner.status = None\<rparr>"]
  by (simp add: status_region_def spec_region_def present_def)

subsection \<open>Environments are partitioned\<close>

text \<open>
  C5: for runners with pairwise distinct ids and any list of environments, whenever
  derivation returns the metrics records, their environment lists partition the
  environments whose \<open>runner_id\<close> is the id of some runner: the union of the lists is
  the set of those environments, the lists of two different records share no
  environment, every such environment occurs as often in the lists together as in the
  input, and an environment that matches no runner is in no list.
\<close>

theorem environments_partition:
  assumes "distinct (map Runner.runner_id runners)"
    and "analyzeAll clock runners envs = Inr ms"
  shows "length ms = length runners \<and>
    (\<Union>m \<in> set ms. set (environments m)) =
      {e \<in> set envs. Environment.runner_id e \<in> Runner.runner_id ` set runners} \<and>
    (\<forall>i < length ms. \<forall>j < length ms. i \<noteq> j \<longrightarrow>
       set (environments (ms ! i)) \<inter> set (environments (ms ! j)) = {}) \<and>
    mset (concat (map environments ms)) =
      mset (filter (\<lambda>e. Environment.runner_id e \<in> Runner.runner_id ` set runners) envs)"
proof -
  let ?att = "\<lambda>r. filter (\<lambda>env. Environment.runner_id env = Runner.runner_id r) envs"
  have E: "map environments ms = map ?att runners"
    using assms(2) by (rule analyzeAll_environments)
  then have len: "length ms = length runners" by (metis length_map)
  have nth: "environments (ms ! i) = ?att (runners ! i)" if "i < length ms" for i
  proof -
    have "map environments ms ! i = map ?att runners ! i" using E by simp
    then show ?thesis using that len by simp
  qed
  have U: "(\<Union>m \<in> set ms. set (environments m)) =
      {e \<in> set envs. Environment.runner_id e \<in> Runner.runner_id ` set runners}"
  proof -
    have "(\<Union>m \<in> set ms. set (environments m)) = \<Union> (set ` set (map environments ms))" by simp
    also have "\<dots> = \<Union> (set ` set (map ?att runners))" by (simp only: E)
    also have "\<dots> = {e \<in> set envs. Environment.runner_id e \<in> Runner.runner_id ` set runners}"
      by auto
    finally show ?thesis .
  qed
  have D: "\<forall>i < length ms. \<forall>j < length ms. i \<noteq> j \<longrightarrow>
       set (environments (ms ! i)) \<inter> set (environments (ms ! j)) = {}"
  proof (intro allI impI)
    fix i j assume ij: "i < length ms" "j < length ms" "i \<noteq> j"
    have "i < length (map Runner.runner_id runners)" "j < length (map Runner.runner_id runners)"
      using ij len by simp_all
    then have "map Runner.runner_id runners ! i \<noteq> map Runner.runner_id runners ! j"
      using assms(1) ij(3) nth_eq_iff_index_eq by blast
    then have "Runner.runner_id (runners ! i) \<noteq> Runner.runner_id (runners ! j)"
      using ij len by simp
    then show "set (environments (ms ! i)) \<inter> set (environments (ms ! j)) = {}"
      using nth [OF ij(1)] nth [OF ij(2)] by auto
  qed
  have M: "mset (concat (map environments ms)) =
      mset (filter (\<lambda>e. Environment.runner_id e \<in> Runner.runner_id ` set runners) envs)"
  proof -
    have "map ?att runners =
      map (\<lambda>k. filter (\<lambda>e. Environment.runner_id e = k) envs) (map Runner.runner_id runners)"
      by simp
    then have "mset (concat (map environments ms)) =
      mset (concat (map (\<lambda>k. filter (\<lambda>e. Environment.runner_id e = k) envs) (map Runner.runner_id runners)))"
      by (simp only: E)
    also have "\<dots> = mset (filter (\<lambda>e. Environment.runner_id e \<in> set (map Runner.runner_id runners)) envs)"
      using assms(1) by (rule mset_concat_filter_distinct)
    finally show ?thesis by simp
  qed
  show ?thesis using len U D M by blast
qed

theorem environments_partition_witness:
  "distinct (map Runner.runner_id [remote_runner, local_runner]) \<and>
   analyzeAll (\<lambda>i. clock0) [remote_runner, local_runner] example_envs =
     Inr [remote_metrics\<lparr>estimatedCost := Some (dec 283 2)\<rparr>,
          local_metrics\<lparr>estimatedCost := Some (Fin 0)\<rparr>] \<and>
   set (environments remote_metrics) \<union> set (environments local_metrics) = {env_a1, env_a2} \<and>
   {e \<in> set example_envs.
      Environment.runner_id e \<in> Runner.runner_id ` set [remote_runner, local_runner]} = {env_a1, env_a2} \<and>
   set (environments remote_metrics) \<inter> set (environments local_metrics) = {} \<and>
   mset (environments remote_metrics @ environments local_metrics) = mset [env_a1, env_a2] \<and>
   env_orphan \<in> set example_envs \<and>
   env_orphan \<notin> set (environments remote_metrics) \<union> set (environments local_metrics)"
proof -
  let ?ms = "[remote_metrics\<lparr>estimatedCost := Some (dec 283 2)\<rparr>,
          local_metrics\<lparr>estimatedCost := Some (Fin 0)\<rparr>]"
  have d: "distinct (map Runner.runner_id [remote_runner, local_runner])"
    by (simp add: remote_runner_def local_runner_def)
  note p = environments_partition [OF d analyze_all_example]
  have e: "environments remote_metrics = [env_a1, env_a2]" "environments local_metrics = []"
    by (simp_all add: remote_metrics_def local_metrics_def)
  have u: "(\<Union>m \<in> set ?ms. set (environments m)) =
      {e \<in> set example_envs. Environment.runner_id e \<in> Runner.runner_id ` set [remote_runner, local_runner]}"
    using p by blast
  have u': "{e \<in> set example_envs.
      Environment.runner_id e \<in> Runner.runner_id ` set [remote_runner, local_runner]} = {env_a1, env_a2}"
    unfolding u [symmetric] by (simp add: e)
  have "\<forall>i < length ?ms. \<forall>j < length ?ms. i \<noteq> j \<longrightarrow>
       set (environments (?ms ! i)) \<inter> set (environments (?ms ! j)) = {}"
    using p by blast
  then have "set (environments (?ms ! 0)) \<inter> set (environments (?ms ! 1)) = {}"
    by (metis One_nat_def length_Cons lessI list.size(3) zero_less_Suc zero_neq_one)
  then have i: "set (environments remote_metrics) \<inter> set (environments local_metrics) = {}"
    by simp
  have "mset (concat (map environments ?ms)) =
      mset (filter (\<lambda>e. Environment.runner_id e \<in> Runner.runner_id ` set [remote_runner, local_runner]) example_envs)"
    using p by blast
  then have m: "mset (environments remote_metrics @ environments local_metrics) = mset [env_a1, env_a2]"
    by (simp add: e)
  have o: "env_orphan \<noteq> env_a1" "env_orphan \<noteq> env_a2"
    by (simp_all add: env_orphan_def env_a1_def env_a2_def)
  show ?thesis using d analyze_all_example u' i m o
    by (simp add: e example_envs_def)
qed

subsection \<open>The end-to-end scenario\<close>

text \<open>
  C6: a \<open>REMOTE\<close> record with instance type \<open>t3.large\<close>, uptime 10 and two attached
  environments is estimated at \<open>2.83\<close>, a \<open>LOCAL\<close> record with uptime 5 and no
  environment at 0; the report on the two records has the total cost \<open>2.83\<close>, printed
  as \<open>2.83\<close>, one remote and one local runner, and two environments in total.
\<close>

theorem end_to_end_scenario:
  assumes "RunnerMetrics.kind m1 = ''RUNNER_KIND_REMOTE''"
    and "instanceType_of (systemDetails m1) = Str ''t3.large''"
    and "uptime m1 = Fin 10"
    and "length (environments m1) = 2"
    and "RunnerMetrics.kind m2 = ''RUNNER_KIND_LOCAL''"
    and "uptime m2 = Fin 5"
    and "environments m2 = []"
  shows "estimateCost m1 = Inr (dec 283 2) \<and>
    estimateCost m2 = Inr (Fin 0) \<and>
    totalCost (generateMarkdownReport
       [m1\<lparr>estimatedCost := Some (dec 283 2)\<rparr>, m2\<lparr>estimatedCost := Some (Fin 0)\<rparr>]) = dec 283 2 \<and>
    totalCostText (generateMarkdownReport
       [m1\<lparr>estimatedCost := Some (dec 283 2)\<rparr>, m2\<lparr>estimatedCost := Some (Fin 0)\<rparr>]) = FixedDec False 283 \<and>
    remoteCount (generateMarkdownReport
       [m1\<lparr>estimatedCost := Some (dec 283 2)\<rparr>, m2\<lparr>estimatedCost := Some (Fin 0)\<rparr>]) = 1 \<and>
    localCount (generateMarkdownReport
       [m1\<lparr>estimatedCost := Some (dec 283 2)\<rparr>, m2\<lparr>estimatedCost := Some (Fin 0)\<rparr>]) = 1 \<and>
    totalEnvironments (generateMarkdownReport
       [m1\<lparr>estimatedCost := Some (dec 283 2)\<rparr>, m2\<lparr>estimatedCost := Some (Fin 0)\<rparr>]) = Fin 2"
proof -
  have k1: "RunnerMetrics.kind m1 \<noteq> ''RUNNER_KIND_LOCAL''" by (simp add: assms(1))
  have c1: "estimateCost m1 = Inr (dec 283 2)"
    using k1 assms(2,3,4) by (rule scenario_cost)
  have c2: "estimateCost m2 = Inr (Fin 0)" by (simp add: estimateCost_def assms(5))
  have z: "cost_or_zero (Some (Fin 0)) = Fin 0" by (simp add: cost_or_zero_def num_or_def)
  have tc: "totalCost (generateMarkdownReport
       [m1\<lparr>estimatedCost := Some (dec 283 2)\<rparr>, m2\<lparr>estimatedCost := Some (Fin 0)\<rparr>])
       = Fin (1593148368182313 / 562949953421312)"
    by (simp add: generateMarkdownReport_def Let_def cost_or_zero_2_83 z total_2_83)
  have tt: "totalCostText (generateMarkdownReport
       [m1\<lparr>estimatedCost := Some (dec 283 2)\<rparr>, m2\<lparr>estimatedCost := Some (Fin 0)\<rparr>])
       = FixedDec False 283"
    by (simp add: generateMarkdownReport_def Let_def cost_or_zero_2_83 z total_2_83 fixed_2_83)
  have rc: "remoteCount (generateMarkdownReport
       [m1\<lparr>estimatedCost := Some (dec 283 2)\<rparr>, m2\<lparr>estimatedCost := Some (Fin 0)\<rparr>]) = 1"
    by (simp add: generateMarkdownReport_def Let_def assms(1,5))
  have lc: "localCount (generateMarkdownReport
       [m1\<lparr>estimatedCost := Some (dec 283 2)\<rparr>, m2\<lparr>estimatedCost := Some (Fin 0)\<rparr>]) = 1"
    by (simp add: generateMarkdownReport_def Let_def assms(1,5))
  have te: "totalEnvironments (generateMarkdownReport
       [m1\<lparr>estimatedCost := Some (dec 283 2)\<rparr>, m2\<lparr>estimatedCost := Some (Fin 0)\<rparr>]) = Fin 2"
    by (simp add: generateMarkdownReport_def Let_def assms(4,7) total_environments_2)
  show ?thesis using c1 c2 tc tt rc lc te by (simp only: dec_2_83 simp_thms)
qed

theorem end_to_end_scenario_witness:
  "analyzeAll (\<lambda>i. clock0) [remote_runner, local_runner] example_envs =
     Inr [remote_metrics\<lparr>estimatedCost := Some (dec 283 2)\<rparr>,
          local_metrics\<lparr>estimatedCost := Some (Fin 0)\<rparr>] \<and>
   dec 283 2 = Fin (1593148368182313 / 562949953421312) \<and>
   estimateCost remote_metrics = Inr (dec 283 2) \<and>
   estimateCost local_metrics = Inr (Fin 0) \<and>
   totalCost (generateMarkdownReport
     [remote_metrics\<lparr>estimatedCost := Some (dec 283 2)\<rparr>,
      local_metrics\<lparr>estimatedCost := Some (Fin 0)\<rparr>]) = dec 283 2 \<and>
   totalCostText (generateMarkdownReport
     [remote_metrics\<lparr>estimatedCost := Some (dec 283 2)\<rparr>,
      local_metrics\<lparr>estimatedCost := Some (Fin 0)\<rparr>]) = FixedDec False 283 \<and>
   remoteCount (generateMarkdownReport
     [remote_metrics\<lparr>estimatedCost := Some (dec 283 2)\<rparr>,
      local_metrics\<lparr>estimatedCost := Some (Fin 0)\<rparr>]) = 1 \<and>
   localCount (generateMarkdownReport
     [remote_metrics\<lparr>estimatedCost := Some (dec 283 2)\<rparr>,
      local_metrics\<lparr>estimatedCost := Some (Fin 0)\<rparr>]) = 1 \<and>
   totalEnvironments (generateMarkdownReport
     [remote_metrics\<lparr>estimatedCost := Some (dec 283 2)\<rparr>,
      local_metrics\<lparr>estimatedCost := Some (Fin 0)\<rparr>]) = Fin 2"
proof -
  have h: "RunnerMetrics.kind remote_metrics = ''RUNNER_KIND_REMOTE''"
    "instanceType_of (systemDetails remote_metrics) = Str ''t3.large''"
    "uptime remote_metrics = Fin 10"
    "length (environments remote_metrics) = 2"
    "RunnerMetrics.kind local_metrics = ''RUNNER_KIND_LOCAL''"
    "uptime local_metrics = Fin 5"
    "environments local_metrics = []"
    by (simp_all add: remote_metrics_def local_metrics_def)
  note s = end_to_end_scenario [OF h]
  show ?thesis using s analyze_all_example dec_2_83 by simp
qed

subsection \<open>Kinds other than local\<close>

text \<open>
  C7: the branch of \<open>estimateCost\<close> tests the kind against \<open>RUNNER_KIND_LOCAL\<close> only.
  For a record of any other kind, known or not:
  the estimate is that of the same record of kind \<open>RUNNER_KIND_REMOTE\<close>;
  with an instance type that is a non-empty string and is not a name inherited from
  \<open>Object.prototype\<close>, the estimate is the metered total, base cost plus environment
  surcharge rounded to two decimal places, at the rate that the table gives the string, the
  default rate for a string that names no tier;
  with an instance type that is absent or falsy, it is the metered total at the default
  rate;
  and in both cases, with an uptime of at least one hour and at most \<open>2 ^ 53\<close> hours and
  fewer than \<open>2 ^ 32\<close> environments, the estimate is a number greater than zero, so the
  record did not take the zero-cost branch, which only a local record takes.
\<close>

theorem estimateCost_unknown_kind:
  "RunnerMetrics.kind m \<noteq> ''RUNNER_KIND_LOCAL'' \<Longrightarrow>
   estimateCost m = estimateCost (m\<lparr>RunnerMetrics.kind := ''RUNNER_KIND_REMOTE''\<rparr>) \<and>
   (instanceType_of (systemDetails m) = Str t \<and> t \<noteq> [] \<and> t \<notin> set Object_prototype_names \<longrightarrow>
      estimateCost m = Inr (spec_metered_cost (spec_tier_rate t) (uptime m) (length (environments m)))) \<and>
   (\<not> truthy (instanceType_of (systemDetails m)) \<longrightarrow>
      estimateCost m = Inr (spec_metered_cost (dec 416 4) (uptime m) (length (environments m)))) \<and>
   ((\<not> truthy (instanceType_of (systemDetails m)) \<or>
     (\<exists>s. instanceType_of (systemDetails m) = Str s \<and> s \<notin> set Object_prototype_names)) \<and>
    uptime m = Fin u \<and> 1 \<le> u \<and> u \<le> 2 ^ 53 \<and> length (environments m) < 2 ^ 32 \<longrightarrow>
      (\<exists>c. estimateCost m = Inr (Fin c) \<and> 0 < c))"
proof (intro conjI impI)
  assume k: "RunnerMetrics.kind m \<noteq> ''RUNNER_KIND_LOCAL''"
  show "estimateCost m = estimateCost (m\<lparr>RunnerMetrics.kind := ''RUNNER_KIND_REMOTE''\<rparr>)"
    using k by (simp add: estimateCost_def Let_def split: sum.split)
  show "estimateCost m = Inr (spec_metered_cost (spec_tier_rate t) (uptime m) (length (environments m)))"
    if "instanceType_of (systemDetails m) = Str t \<and> t \<noteq> [] \<and> t \<notin> set Object_prototype_names"
    using that estimateCost_metered_string [OF k, of t] by blast
  show "estimateCost m = Inr (spec_metered_cost (dec 416 4) (uptime m) (length (environments m)))"
    if "\<not> truthy (instanceType_of (systemDetails m))"
    using that by (rule estimateCost_metered_default [OF k])
  show "\<exists>c. estimateCost m = Inr (Fin c) \<and> 0 < c"
    if h: "(\<not> truthy (instanceType_of (systemDetails m)) \<or>
     (\<exists>s. instanceType_of (systemDetails m) = Str s \<and> s \<notin> set Object_prototype_names)) \<and>
    uptime m = Fin u \<and> 1 \<le> u \<and> u \<le> 2 ^ 53 \<and> length (environments m) < 2 ^ 32"
  proof -
    have "\<exists>t. estimateCost m = Inr (spec_metered_cost (spec_tier_rate t) (uptime m) (length (environments m)))"
    proof (cases "truthy (instanceType_of (systemDetails m))")
      case False
      have "spec_tier_rate ''default'' = dec 416 4" by (simp add: spec_tier_rate_def)
      then show ?thesis using estimateCost_metered_default [OF k False] by metis
    next
      case True
      then obtain s where s: "instanceType_of (systemDetails m) = Str s" "s \<notin> set Object_prototype_names"
        using h by blast
      then have "s \<noteq> []" using True by auto
      then show ?thesis using estimateCost_metered_string [OF k s(1) _ s(2)] by blast
    qed
    then obtain t where t: "estimateCost m = Inr (spec_metered_cost (spec_tier_rate t) (uptime m) (length (environments m)))"
      by blast
    obtain a where a: "spec_tier_rate t = Fin a" "1 / 25 \<le> a" "a \<le> 1"
      using spec_tier_rate_bounds [of t] by blast
    have u: "uptime m = Fin u" "1 \<le> u" "u \<le> 2 ^ 53" and n: "length (environments m) < 2 ^ 32"
      using h by simp_all
    from spec_metered_cost_pos [OF u(2,3) n a(2,3)] show ?thesis
      by (simp add: t a(1) u(1))
  qed
qed

theorem estimateCost_unknown_kind_witness:
  "RunnerMetrics.kind (remote_metrics\<lparr>RunnerMetrics.kind := ''RUNNER_KIND_UNSPECIFIED''\<rparr>)
     \<noteq> ''RUNNER_KIND_LOCAL'' \<and>
   estimateCost (remote_metrics\<lparr>RunnerMetrics.kind := ''RUNNER_KIND_UNSPECIFIED''\<rparr>) =
     estimateCost (remote_metrics\<lparr>RunnerMetrics.kind := ''RUNNER_KIND_REMOTE''\<rparr>) \<and>
   ''t3.large'' \<notin> set Object_prototype_names \<and>
   estimateCost (remote_metrics\<lparr>RunnerMetrics.kind := ''RUNNER_KIND_UNSPECIFIED''\<rparr>) =
     Inr (spec_metered_cost (spec_tier_rate ''t3.large'') (Fin 10) 2) \<and>
   spec_metered_cost (spec_tier_rate ''t3.large'') (Fin 10) 2 = dec 283 2 \<and>
   dec 283 2 = Fin (1593148368182313 / 562949953421312) \<and>
   \<not> truthy (instanceType_of (systemDetails
     (remote_metrics\<lparr>RunnerMetrics.kind := ''unknown'', systemDetails := Obj []\<rparr>))) \<and>
   estimateCost (remote_metrics\<lparr>RunnerMetrics.kind := ''unknown'', systemDetails := Obj []\<rparr>) =
     Inr (spec_metered_cost (dec 416 4) (Fin 10) 2) \<and>
   spec_metered_cost (dec 416 4) (Fin 10) 2 = dec 242 2 \<and>
   dec 242 2 = Fin (1362338887279575 / 562949953421312) \<and>
   (\<exists>c. estimateCost (remote_metrics\<lparr>RunnerMetrics.kind := ''unknown'', systemDetails := Obj []\<rparr>) =
      Inr (Fin c) \<and> 0 < c) \<and>
   estimateCost (remote_metrics\<lparr>RunnerMetrics.kind := ''RUNNER_KIND_LOCAL''\<rparr>) = Inr (Fin 0)"
proof -
  let ?a = "remote_metrics\<lparr>RunnerMetrics.kind := ''RUNNER_KIND_UNSPECIFIED''\<rparr>"
  let ?b = "remote_metrics\<lparr>RunnerMetrics.kind := ''unknown'', systemDetails := Obj []\<rparr>"
  have ka: "RunnerMetrics.kind ?a \<noteq> ''RUNNER_KIND_LOCAL''" by simp
  have kb: "RunnerMetrics.kind ?b \<noteq> ''RUNNER_KIND_LOCAL''" by simp
  note ta = estimateCost_unknown_kind [OF ka, of "''t3.large''" 10]
  note tb = estimateCost_unknown_kind [OF kb, of "''default''" 10]
  have p: "''t3.large'' \<notin> set Object_prototype_names" by (simp add: Object_prototype_names_def)
  have fa: "instanceType_of (systemDetails ?a) = Str ''t3.large''" "uptime ?a = Fin 10"
    "length (environments ?a) = 2"
    by (simp_all add: remote_metrics_def)
  have fb: "\<not> truthy (instanceType_of (systemDetails ?b))" "uptime ?b = Fin 10"
    "length (environments ?b) = 2"
    by (simp_all add: remote_metrics_def)
  have a1: "estimateCost ?a = estimateCost (remote_metrics\<lparr>RunnerMetrics.kind := ''RUNNER_KIND_REMOTE''\<rparr>)"
  proof -
    have "?a\<lparr>RunnerMetrics.kind := ''RUNNER_KIND_REMOTE''\<rparr> =
      remote_metrics\<lparr>RunnerMetrics.kind := ''RUNNER_KIND_REMOTE''\<rparr>" by simp
    then show ?thesis using ta [THEN conjunct1] by (simp only:)
  qed
  have a2: "estimateCost ?a = Inr (spec_metered_cost (spec_tier_rate ''t3.large'') (Fin 10) 2)"
    using ta [THEN conjunct2, THEN conjunct1] fa p by simp
  have b2: "estimateCost ?b = Inr (spec_metered_cost (dec 416 4) (Fin 10) 2)"
    using tb [THEN conjunct2, THEN conjunct2, THEN conjunct1] fb by simp
  have b3: "\<exists>c. estimateCost ?b = Inr (Fin c) \<and> 0 < c"
    using tb [THEN conjunct2, THEN conjunct2, THEN conjunct2] fb by simp
  have l: "estimateCost (remote_metrics\<lparr>RunnerMetrics.kind := ''RUNNER_KIND_LOCAL''\<rparr>) = Inr (Fin 0)"
    by (simp add: estimateCost_def)
  show ?thesis
    using ka a1 p a2 metered_large_example dec_2_83 fb(1) b2 metered_default_example dec_2_42 b3 l
    by (simp only: simp_thms)
qed

subsection \<open>System details that are not JSON\<close>

text \<open>
  C8 as stated fails at the empty string: it is not JSON, and \<open>parseSystemDetails\<close>
  returns \<open>{}\<close> for it, not \<open>{raw: ""}\<close>.
\<close>

theorem parseSystemDetails_empty_counterexample:
  "JSON_parse '''' = Inl SyntaxError \<and> parseSystemDetails (Some '''') = Obj [] \<and>
   parseSystemDetails (Some '''') \<noteq> Obj [(''raw'', Str '''')]"
  by (simp add: parseSystemDetails_def JSON_parse_empty)

text \<open>
  C8, amended: for every system-details string that is not empty and fails to parse as
  JSON, \<open>parseSystemDetails\<close> returns \<open>{raw: <the string>}\<close>; it never throws.
\<close>

theorem parseSystemDetails_fallback:
  "d \<noteq> [] \<Longrightarrow> JSON_parse d = Inl e \<Longrightarrow> parseSystemDetails (Some d) = Obj [(''raw'', Str d)]"
  by (simp add: parseSystemDetails_def)

theorem parseSystemDetails_fallback_witness:
  "''{not json'' \<noteq> [] \<and> JSON_parse ''{not json'' = Inl SyntaxError \<and>
   parseSystemDetails (Some ''{not json'') = Obj [(''raw'', Str ''{not json'')]"
  using parseSystemDetails_fallback [of "''{not json''" SyntaxError] JSON_parse_not_json
  by simp

subsection \<open>The recommendations\<close>

text \<open>
  C9: one record with phase \<open>RUNNER_PHASE_INACTIVE\<close>, uptime 200, no environment and
  cost 150 gives all four bullets, each with the count 1.  For any list of records,
  each bullet is there exactly when some record meets the condition of its own rule,
  and the number it prints is the number of records that meet that condition.
\<close>

theorem recommendation_rules:
  "(RunnerMetrics.phase m = ''RUNNER_PHASE_INACTIVE'' \<and> uptime m = Fin 200 \<and> environments m = [] \<and>
      estimatedCost m = Some (Fin 150) \<longrightarrow>
      recommendations (generateMarkdownReport [m]) =
        [inactive_line 1, uptime_line 1, empty_line 1, cost_line 1]) \<and>
   (inactive_line n \<in> set (recommendations (generateMarkdownReport ms)) \<longleftrightarrow>
      0 < n \<and> n = length (filter (\<lambda>m. RunnerMetrics.phase m = ''RUNNER_PHASE_INACTIVE'') ms)) \<and>
   (uptime_line n \<in> set (recommendations (generateMarkdownReport ms)) \<longleftrightarrow>
      0 < n \<and> n = length (filter (\<lambda>m. js_gt (uptime m) (Fin 168)) ms)) \<and>
   (empty_line n \<in> set (recommendations (generateMarkdownReport ms)) \<longleftrightarrow>
      0 < n \<and> n = length (filter (\<lambda>m. length (environments m) = 0 \<and> js_gt (uptime m) (Fin 24)) ms)) \<and>
   (cost_line n \<in> set (recommendations (generateMarkdownReport ms)) \<longleftrightarrow>
      0 < n \<and> n = length (filter (\<lambda>m. js_gt (cost_or_zero (estimatedCost m)) (Fin 100)) ms))"
proof (intro conjI)
  show "RunnerMetrics.phase m = ''RUNNER_PHASE_INACTIVE'' \<and> uptime m = Fin 200 \<and> environments m = [] \<and>
      estimatedCost m = Some (Fin 150) \<longrightarrow>
      recommendations (generateMarkdownReport [m]) =
        [inactive_line 1, uptime_line 1, empty_line 1, cost_line 1]"
    by (simp add: generateMarkdownReport_def Let_def cost_or_zero_def num_or_def num_truthy_def)
next
  show "inactive_line n \<in> set (recommendations (generateMarkdownReport ms)) \<longleftrightarrow>
      0 < n \<and> n = length (filter (\<lambda>m. RunnerMetrics.phase m = ''RUNNER_PHASE_INACTIVE'') ms)"
    by (auto simp: generateMarkdownReport_def Let_def lines_distinct inactive_line_inj)
next
  show "uptime_line n \<in> set (recommendations (generateMarkdownReport ms)) \<longleftrightarrow>
      0 < n \<and> n = length (filter (\<lambda>m. js_gt (uptime m) (Fin 168)) ms)"
    by (auto simp: generateMarkdownReport_def Let_def lines_distinct uptime_line_inj)
next
  show "empty_line n \<in> set (recommendations (generateMarkdownReport ms)) \<longleftrightarrow>
      0 < n \<and> n = length (filter (\<lambda>m. length (environments m) = 0 \<and> js_gt (uptime m) (Fin 24)) ms)"
    by (auto simp: generateMarkdownReport_def Let_def lines_distinct empty_line_inj)
next
  show "cost_line n \<in> set (recommendations (generateMarkdownReport ms)) \<longleftrightarrow>
      0 < n \<and> n = length (filter (\<lambda>m. js_gt (cost_or_zero (estimatedCost m)) (Fin 100)) ms)"
    by (auto simp: generateMarkdownReport_def Let_def lines_distinct cost_line_inj)
qed

theorem recommendation_rules_witness:
  "recommendations (generateMarkdownReport
     [remote_metrics\<lparr>RunnerMetrics.phase := ''RUNNER_PHASE_INACTIVE'', uptime := Fin 200,
        environments := [], estimatedCost := Some (Fin 150)\<rparr>]) =
     [inactive_line 1, uptime_line 1, empty_line 1, cost_line 1] \<and>
   inactive_line 1 = ''- '' @ marker_red @ '' Clean up 1 inactive runners'' @ [CHR 0x0A] \<and>
   uptime_line 1 \<in> set (recommendations (generateMarkdownReport
     [remote_metrics\<lparr>uptime := Fin 200\<rparr>, local_metrics])) \<and>
   inactive_line 1 \<notin> set (recommendations (generateMarkdownReport
     [remote_metrics\<lparr>uptime := Fin 200\<rparr>, local_metrics]))"
  using recommendation_rules
      [of "remote_metrics\<lparr>RunnerMetrics.phase := ''RUNNER_PHASE_INACTIVE'', uptime := Fin 200,
        environments := [], estimatedCost := Some (Fin 150)\<rparr>" 1
        "[remote_metrics\<lparr>uptime := Fin 200\<rparr>, local_metrics]"]
    inactive_line_1
  by (simp add: remote_metrics_def local_metrics_def)

subsection \<open>The empty system-details string\<close>

text \<open>
  C10: for the empty string \<open>parseSystemDetails\<close> returns \<open>{}\<close> and not
  \<open>{raw: ""}\<close>, although the empty string is not JSON; for a string that is not empty
  the result is what \<open>JSON.parse\<close> returns, and \<open>{raw: <the string>}\<close> exactly when
  \<open>JSON.parse\<close> throws.
\<close>

theorem parseSystemDetails_empty:
  "parseSystemDetails (Some '''') = Obj [] \<and>
   parseSystemDetails (Some '''') \<noteq> Obj [(''raw'', Str '''')] \<and>
   JSON_parse '''' = Inl SyntaxError \<and>
   (\<forall>d. d \<noteq> [] \<longrightarrow>
      parseSystemDetails (Some d) = (case JSON_parse d of Inr v \<Rightarrow> v | Inl e \<Rightarrow> Obj [(''raw'', Str d)]))"
  by (simp add: parseSystemDetails_def JSON_parse_empty)

theorem parseSystemDetails_empty_witness:
  "parseSystemDetails (Some '''') = Obj [] \<and>
   JSON_parse '''' = Inl SyntaxError \<and>
   parseSystemDetails (Some ''{\"instanceType\":\"t3.large\"}'') =
     Obj [(''instanceType'', Str ''t3.large'')] \<and>
   parseSystemDetails (Some ''[true,]'') = Obj [(''raw'', Str ''[true,]'')]"
proof -
  have "JSON_parse ''[true,]'' = Inl SyntaxError" by (simp add: json_defs)
  then show ?thesis using parseSystemDetails_empty parse_t3_large by simp
qed

end
